theory Spec2Isabelle
  imports Complex_Main
begin

section \<open>In-memory history (history/memory.ts, createMemoryHistory)\<close>

text \<open>
  The closure variables of \<^verbatim>\<open>createMemoryHistory\<close> are the state: the listeners, the
  \<^verbatim>\<open>queue\<close> of locations and the \<^verbatim>\<open>position\<close> cursor. A history location is a string,
  \<^verbatim>\<open>START\<close> is the empty string. Listeners are opaque callbacks; they are represented by
  an identifier, and calling one is recorded as a notification.
\<close>

type_synonym HistoryLocation = string

definition START :: HistoryLocation where
  "START = ''''"

datatype NavigationDirection = dir_back | dir_forward | dir_unknown

record NavigationInformation =
  direction :: NavigationDirection
  delta :: int

record MemoryHistory =
  listeners :: "nat list"
  queue :: "HistoryLocation list"
  position :: int

definition createMemoryHistory :: MemoryHistory where
  "createMemoryHistory = \<lparr> listeners = [], queue = [START], position = 0 \<rparr>"

text \<open>
  \<^verbatim>\<open>Array.prototype.splice(start, deleteCount)\<close>: a negative start counts from the end,
  a start beyond the end is the length; an omitted delete count removes everything from
  the start on.
\<close>

definition splice_start :: "int \<Rightarrow> nat \<Rightarrow> nat" where
  "splice_start start len =
     (if start < 0 then nat (max (int len + start) 0) else min (nat start) len)"

definition splice :: "'a list \<Rightarrow> int \<Rightarrow> int option \<Rightarrow> 'a list" where
  "splice xs start deleteCount =
     (let s = splice_start start (length xs);
          d = (case deleteCount of
                 None \<Rightarrow> length xs - s
               | Some c \<Rightarrow> min (nat (max c 0)) (length xs - s))
      in take s xs @ drop (s + d) xs)"

text \<open>The getter of \<^verbatim>\<open>location\<close>: \<^verbatim>\<open>queue[position]\<close>, undefined out of range.\<close>

definition location :: "MemoryHistory \<Rightarrow> HistoryLocation option" where
  "location h =
     (if 0 \<le> position h \<and> position h < int (length (queue h))
      then Some (queue h ! nat (position h)) else None)"

definition setLocation :: "HistoryLocation \<Rightarrow> MemoryHistory \<Rightarrow> MemoryHistory" where
  "setLocation loc h =
     (let p = position h + 1;
          q = (if p \<noteq> int (length (queue h)) then splice (queue h) p None else queue h)
      in h\<lparr> queue := q @ [loc], position := p \<rparr>)"

definition replace_history :: "HistoryLocation \<Rightarrow> MemoryHistory \<Rightarrow> MemoryHistory" where
  "replace_history to h =
     setLocation to
       (h\<lparr> queue := splice (queue h) (position h) (Some 1), position := position h - 1 \<rparr>)"

definition push_history :: "HistoryLocation \<Rightarrow> MemoryHistory \<Rightarrow> MemoryHistory" where
  "push_history to h = setLocation to h"

definition listen :: "nat \<Rightarrow> MemoryHistory \<Rightarrow> MemoryHistory" where
  "listen callback h = h\<lparr> listeners := listeners h @ [callback] \<rparr>"

text \<open>The function returned by \<^verbatim>\<open>listen\<close>: removes the first occurrence.\<close>

definition unlisten :: "nat \<Rightarrow> MemoryHistory \<Rightarrow> MemoryHistory" where
  "unlisten callback h = h\<lparr> listeners := remove1 callback (listeners h) \<rparr>"

definition destroy :: "MemoryHistory \<Rightarrow> MemoryHistory" where
  "destroy h = h\<lparr> listeners := [], queue := [START], position := 0 \<rparr>"

text \<open>
  A notification is one call \<^verbatim>\<open>callback(to, from, info)\<close>; \<^verbatim>\<open>triggerListeners\<close> calls
  every listener in order.
\<close>

type_synonym notification =
  "nat \<times> HistoryLocation option \<times> HistoryLocation option \<times> NavigationInformation"

definition triggerListeners ::
  "MemoryHistory \<Rightarrow> HistoryLocation option \<Rightarrow> HistoryLocation option \<Rightarrow>
   NavigationInformation \<Rightarrow> notification list" where
  "triggerListeners h to from info = map (\<lambda>callback. (callback, to, from, info)) (listeners h)"

definition go_history :: "int \<Rightarrow> bool \<Rightarrow> MemoryHistory \<Rightarrow> MemoryHistory \<times> notification list" where
  "go_history d shouldTrigger h =
     (let from = location h;
          dir = (if d < 0 then dir_back else dir_forward);
          h' = h\<lparr> position := max 0 (min (position h + d) (int (length (queue h)) - 1)) \<rparr>
      in (h', if shouldTrigger
              then triggerListeners h' (location h') from \<lparr> direction = dir, delta = d \<rparr>
              else []))"

text \<open>The cursor points into the queue.\<close>

definition history_ok :: "MemoryHistory \<Rightarrow> bool" where
  "history_ok h = (0 \<le> position h \<and> position h < int (length (queue h)))"

text \<open>The history after \<^verbatim>\<open>push('/a')\<close>, \<^verbatim>\<open>push('/b')\<close>, \<^verbatim>\<open>go(-1)\<close>.\<close>

definition scenario_a_b_back :: MemoryHistory where
  "scenario_a_b_back =
     fst (go_history (- 1) True (push_history ''/b'' (push_history ''/a'' createMemoryHistory)))"

section \<open>Route records and their equality (location.ts)\<close>

text \<open>
  A route record is a JavaScript object, compared by reference. The model gives every
  record its address \<open>ref\<close>; \<open>aliasOf\<close> holds the address of the record it aliases,
  \<open>None\<close> for the undefined of an original record.
\<close>

record RouteRecord =
  ref :: nat
  aliasOf :: "nat option"

text \<open>\<^verbatim>\<open>a.aliasOf || a\<close>: a record object is always truthy.\<close>

definition aliasOf_or_self :: "'a RouteRecord_scheme \<Rightarrow> nat" where
  "aliasOf_or_self a = (case aliasOf a of None \<Rightarrow> ref a | Some r \<Rightarrow> r)"

definition isSameRouteRecord :: "'a RouteRecord_scheme \<Rightarrow> 'b RouteRecord_scheme \<Rightarrow> bool" where
  "isSameRouteRecord a b = (aliasOf_or_self a = aliasOf_or_self b)"

section \<open>Specificity scores and their comparison (matcher/pathParserRanker.ts)\<close>

type_synonym score = rat

definition PathScore_multiplier :: score where "PathScore_multiplier = 10"
definition PathScore_Root :: score where "PathScore_Root = 9 * PathScore_multiplier"
definition PathScore_Segment :: score where "PathScore_Segment = 4 * PathScore_multiplier"
definition PathScore_SubSegment :: score where "PathScore_SubSegment = 3 * PathScore_multiplier"
definition PathScore_Static :: score where "PathScore_Static = 4 * PathScore_multiplier"
definition PathScore_Dynamic :: score where "PathScore_Dynamic = 2 * PathScore_multiplier"
definition PathScore_BonusCustomRegExp :: score where
  "PathScore_BonusCustomRegExp = 1 * PathScore_multiplier"
definition PathScore_BonusWildcard :: score where
  "PathScore_BonusWildcard = - 4 * PathScore_multiplier - PathScore_BonusCustomRegExp"
definition PathScore_BonusRepeatable :: score where
  "PathScore_BonusRepeatable = - 2 * PathScore_multiplier"
definition PathScore_BonusOptional :: score where
  "PathScore_BonusOptional = - (8 / 10) * PathScore_multiplier"
definition PathScore_BonusStrict :: score where
  "PathScore_BonusStrict = (7 / 100) * PathScore_multiplier"
definition PathScore_BonusCaseSensitive :: score where
  "PathScore_BonusCaseSensitive = (25 / 1000) * PathScore_multiplier"

lemmas PathScore_defs =
  PathScore_multiplier_def PathScore_Root_def PathScore_Segment_def PathScore_SubSegment_def
  PathScore_Static_def PathScore_Dynamic_def PathScore_BonusCustomRegExp_def
  PathScore_BonusWildcard_def PathScore_BonusRepeatable_def PathScore_BonusOptional_def
  PathScore_BonusStrict_def PathScore_BonusCaseSensitive_def

function compareScoreArray_loop :: "nat \<Rightarrow> score list \<Rightarrow> score list \<Rightarrow> score option" where
  "compareScoreArray_loop i a b =
     (if i < length a \<and> i < length b
      then (let diff = b ! i - a ! i
            in if diff \<noteq> 0 then Some diff else compareScoreArray_loop (i + 1) a b)
      else None)"
  by pat_completeness auto
termination
  by (relation "measure (\<lambda>(i, a, b). length a - i)") auto

declare compareScoreArray_loop.simps [simp del]

definition compareScoreArray :: "score list \<Rightarrow> score list \<Rightarrow> score" where
  "compareScoreArray a b =
     (case compareScoreArray_loop 0 a b of
        Some diff \<Rightarrow> diff
      | None \<Rightarrow>
          if length a < length b
          then (if length a = 1 \<and> a ! 0 = PathScore_Static + PathScore_Segment then - 1 else 1)
          else if length a > length b
          then (if length b = 1 \<and> b ! 0 = PathScore_Static + PathScore_Segment then 1 else - 1)
          else 0)"

definition isLastScoreNegative :: "score list list \<Rightarrow> bool" where
  "isLastScoreNegative sc =
     (if length sc > 0
      then (let l = sc ! (length sc - 1) in if l = [] then False else l ! (length l - 1) < 0)
      else False)"

section \<open>Path tokenizer (matcher/pathTokenizer.ts)\<close>

datatype Token =
    TokenStatic string
  | TokenParam string string bool bool
  | TokenGroup "Token list"

text \<open>
  \<open>TokenParam value regexp optional repeatable\<close>, in the order of the tokenizer's object
  literal read as name, custom regexp and the two modifiers.
\<close>

datatype TokenizerState = Static | Param | ParamRegExp | ParamRegExpEnd | EscapeNext

definition ROOT_TOKEN :: Token where
  "ROOT_TOKEN = TokenStatic ''''"

datatype tokenizer_error =
    InvalidPath string
  | RepeatableNotAlone TokenizerState string
  | InvalidStateToConsume TokenizerState string
  | UnfinishedRegExp TokenizerState string
  | SegmentUndefined

record tokenizer =
  state :: TokenizerState
  previousState :: TokenizerState
  tokens :: "Token list list"
  segment :: "Token list option"
  index :: nat
  char :: "char option"
  buffer :: string
  customRe :: string

definition VALID_PARAM_RE :: "char \<Rightarrow> bool" where
  "VALID_PARAM_RE c =
     (let n = of_char c :: nat
      in (97 \<le> n \<and> n \<le> 122) \<or> (65 \<le> n \<and> n \<le> 90) \<or> (48 \<le> n \<and> n \<le> 57) \<or> n = 95)"

definition finalizeSegment :: "tokenizer \<Rightarrow> tokenizer" where
  "finalizeSegment t =
     (case segment t of
        Some seg \<Rightarrow> t\<lparr> tokens := tokens t @ [seg], segment := Some [] \<rparr>
      | None \<Rightarrow> t\<lparr> segment := Some [] \<rparr>)"

definition is_modifier :: "char option \<Rightarrow> bool" where
  "is_modifier c = (c = Some CHR ''*'' \<or> c = Some CHR ''?'' \<or> c = Some CHR ''+'')"

definition consumeBuffer :: "tokenizer \<Rightarrow> tokenizer_error + tokenizer" where
  "consumeBuffer t =
     (if buffer t = [] then Inr t
      else if state t = Static then
        (case segment t of
           None \<Rightarrow> Inl SegmentUndefined
         | Some seg \<Rightarrow>
             Inr (t\<lparr> segment := Some (seg @ [TokenStatic (buffer t)]), buffer := [] \<rparr>))
      else if state t = Param \<or> state t = ParamRegExp \<or> state t = ParamRegExpEnd then
        (case segment t of
           None \<Rightarrow> Inl SegmentUndefined
         | Some seg \<Rightarrow>
             if length seg > 1 \<and> (char t = Some CHR ''*'' \<or> char t = Some CHR ''+'')
             then Inl (RepeatableNotAlone (state t) (buffer t))
             else Inr (t\<lparr> segment := Some (seg @
                         [TokenParam (buffer t) (customRe t)
                            (char t = Some CHR ''*'' \<or> char t = Some CHR ''?'')
                            (char t = Some CHR ''*'' \<or> char t = Some CHR ''+'')]),
                       buffer := [] \<rparr>))
      else Inl (InvalidStateToConsume (state t) (buffer t)))"

definition addCharToBuffer :: "tokenizer \<Rightarrow> tokenizer" where
  "addCharToBuffer t = (case char t of Some c \<Rightarrow> t\<lparr> buffer := buffer t @ [c] \<rparr> | None \<Rightarrow> t)"

text \<open>
  One turn of the \<^verbatim>\<open>while\<close> loop, entered with \<open>index t < length path\<close>: read the character,
  advance, then the escape check and the \<^verbatim>\<open>switch\<close>.
\<close>

definition tokenize_step :: "string \<Rightarrow> tokenizer \<Rightarrow> tokenizer_error + tokenizer" where
  "tokenize_step path t0 =
     (let c = path ! index t0;
          t = t0\<lparr> char := Some c, index := index t0 + 1 \<rparr>
      in if c = CHR 0x5C \<and> state t \<noteq> ParamRegExp
         then Inr (t\<lparr> previousState := state t, state := EscapeNext \<rparr>)
         else (case state t of
            Static \<Rightarrow>
              if c = CHR ''/'' then
                (case (if buffer t \<noteq> [] then consumeBuffer t else Inr t) of
                   Inl e \<Rightarrow> Inl e
                 | Inr t' \<Rightarrow> Inr (finalizeSegment t'))
              else if c = CHR '':'' then
                (case consumeBuffer t of
                   Inl e \<Rightarrow> Inl e
                 | Inr t' \<Rightarrow> Inr (t'\<lparr> state := Param \<rparr>))
              else Inr (addCharToBuffer t)
          | EscapeNext \<Rightarrow>
              Inr ((addCharToBuffer t)\<lparr> state := previousState t \<rparr>)
          | Param \<Rightarrow>
              if c = CHR ''('' then Inr (t\<lparr> state := ParamRegExp \<rparr>)
              else if VALID_PARAM_RE c then Inr (addCharToBuffer t)
              else
                (case consumeBuffer t of
                   Inl e \<Rightarrow> Inl e
                 | Inr t' \<Rightarrow>
                     Inr (t'\<lparr> state := Static,
                              index := (if \<not> is_modifier (Some c) then index t' - 1 else index t') \<rparr>))
          | ParamRegExp \<Rightarrow>
              if c = CHR '')'' then
                (if customRe t \<noteq> [] \<and> last (customRe t) = CHR 0x5C
                 then Inr (t\<lparr> customRe := butlast (customRe t) @ [c] \<rparr>)
                 else Inr (t\<lparr> state := ParamRegExpEnd \<rparr>))
              else Inr (t\<lparr> customRe := customRe t @ [c] \<rparr>)
          | ParamRegExpEnd \<Rightarrow>
              (case consumeBuffer t of
                 Inl e \<Rightarrow> Inl e
               | Inr t' \<Rightarrow>
                   Inr (t'\<lparr> state := Static,
                            index := (if \<not> is_modifier (Some c) then index t' - 1 else index t'),
                            customRe := [] \<rparr>))))"

definition tokenize_measure :: "string \<Rightarrow> tokenizer \<Rightarrow> nat" where
  "tokenize_measure path t =
     2 * (length path - index t) + (if state t = Param \<or> state t = ParamRegExpEnd then 1 else 0)"

lemma consumeBuffer_keeps:
  "consumeBuffer t = Inr t' \<Longrightarrow> index t' = index t \<and> state t' = state t"
  by (auto simp: consumeBuffer_def split: if_splits option.splits)

lemma tokenize_step_decreases:
  assumes "index t < length path" and "tokenize_step path t = Inr t'"
  shows "tokenize_measure path t' < tokenize_measure path t"
proof (cases "path ! index t = CHR 0x5C \<and> state t \<noteq> ParamRegExp")
  case True
  with assms show ?thesis
    by (auto simp: tokenize_step_def tokenize_measure_def Let_def)
next
  case False
  with assms show ?thesis
    by (cases "state t")
      (auto simp: tokenize_step_def tokenize_measure_def Let_def finalizeSegment_def
        addCharToBuffer_def is_modifier_def
        dest!: consumeBuffer_keeps split: if_splits sum.splits option.splits)
qed

function tokenize_loop :: "string \<Rightarrow> tokenizer \<Rightarrow> tokenizer_error + tokenizer" where
  "tokenize_loop path t =
     (if index t < length path
      then (case tokenize_step path t of
              Inl e \<Rightarrow> Inl e
            | Inr t' \<Rightarrow> tokenize_loop path t')
      else Inr t)"
  by pat_completeness auto
termination
  by (relation "measure (\<lambda>(path, t). tokenize_measure path t)")
    (auto simp: tokenize_step_decreases)

declare tokenize_loop.simps [simp del]

definition tokenizePath :: "string \<Rightarrow> tokenizer_error + Token list list" where
  "tokenizePath path =
     (if path = [] then Inr [[]]
      else if path = ''/'' then Inr [[ROOT_TOKEN]]
      else if hd path \<noteq> CHR ''/'' then Inl (InvalidPath path)
      else
        (case tokenize_loop path
                \<lparr> state = Static, previousState = Static, tokens = [], segment = None,
                  index = 0, char = None, buffer = [], customRe = [] \<rparr> of
           Inl e \<Rightarrow> Inl e
         | Inr t \<Rightarrow>
             if state t = ParamRegExp then Inl (UnfinishedRegExp (state t) (buffer t))
             else (case consumeBuffer t of
                     Inl e \<Rightarrow> Inl e
                   | Inr t' \<Rightarrow> Inr (tokens (finalizeSegment t')))))"

section \<open>Strings\<close>

definition endsWith :: "string \<Rightarrow> string \<Rightarrow> bool" where
  "endsWith s suffix = (length suffix \<le> length s \<and> drop (length s - length suffix) s = suffix)"

text \<open>\<^verbatim>\<open>s.split(sep)\<close> for a one-character separator.\<close>

fun split :: "char \<Rightarrow> string \<Rightarrow> string list" where
  "split sep [] = [[]]"
| "split sep (c # cs) =
     (if c = sep then [] # split sep cs
      else (case split sep cs of
              [] \<Rightarrow> [[c]]
            | x # xs \<Rightarrow> (c # x) # xs))"

section \<open>JavaScript values and objects\<close>

text \<open>
  The value of a parameter as the type \<^verbatim>\<open>PathParams\<close> declares it: a string or an array
  of strings.
\<close>

datatype ParamValue = PString string | PArray "string list"

text \<open>
  The value of a property read from an object: a string or an array of strings, or any
  other value (a function or an object of the prototype chain, a number), of which the
  model keeps whether it is truthy and the text that string concatenation gives it.
\<close>

datatype JSValue = JSParam ParamValue | JSOther bool string







section \<open>Regular expressions generated by the parser\<close>

text \<open>
  \<^verbatim>\<open>tokensToParser\<close> builds the source text of a regular expression and hands it to the
  JavaScript engine. The model keeps that text (\<open>pattern\<close>) and, beside it, the syntax tree
  the engine reads from it. A parameter's own pattern is user text: its meaning is a
  parameter of the model, \<open>re_prefixes engine re s\<close> lists, in the engine's order of
  preference, how many characters of \<open>s\<close> the pattern \<open>re\<close> can consume, and
  \<open>re_valid engine re\<close> says whether \<^verbatim>\<open>new RegExp\<close> accepts it.

  The engine also has the built-in objects: \<open>object_prototype\<close> holds the properties an
  object literal inherits (those of \<^verbatim>\<open>Object.prototype\<close>, with \<^verbatim>\<open>__proto__\<close> read through
  its getter), \<open>array_prototype\<close> the properties an array has beside its elements, its
  \<^verbatim>\<open>length\<close> and \<^verbatim>\<open>__proto__\<close> (those of \<^verbatim>\<open>Array.prototype\<close> and \<^verbatim>\<open>Object.prototype\<close>).
\<close>

datatype rx =
    Bol
  | Eol
  | Slash
  | Chars string
  | Base
  | Custom string
  | NonCap "rx list"
  | Cap "rx list"
  | Opt rx
  | Star rx
  | Alt "rx list" "rx list"

record engine =
  re_valid :: "string \<Rightarrow> bool"
  re_prefixes :: "string \<Rightarrow> string \<Rightarrow> nat list"
  object_prototype :: "string \<rightharpoonup> JSValue"
  array_prototype :: "string \<rightharpoonup> JSValue"

definition BASE_PARAM_PATTERN :: string where
  "BASE_PARAM_PATTERN = ''[^/]+?''"

text \<open>\<^verbatim>\<open>REGEX_CHARS_RE\<close> and \<^verbatim>\<open>value.replace(REGEX_CHARS_RE, '\\$&')\<close>.\<close>

definition REGEX_CHARS_RE :: "char \<Rightarrow> bool" where
  "REGEX_CHARS_RE c = (c \<in> set ''.+*?^${}()[]/'' \<or> c = CHR 0x5C)"

definition escape_regex :: "string \<Rightarrow> string" where
  "escape_regex s = concat (map (\<lambda>c. if REGEX_CHARS_RE c then [CHR 0x5C, c] else [c]) s)"

fun render :: "rx \<Rightarrow> string" and render_seq :: "rx list \<Rightarrow> string" where
  "render Bol = ''^''"
| "render Eol = ''$''"
| "render Slash = ''/''"
| "render (Chars s) = escape_regex s"
| "render Base = BASE_PARAM_PATTERN"
| "render (Custom re) = re"
| "render (NonCap rs) = ''(?:'' @ render_seq rs @ '')''"
| "render (Cap rs) = ''('' @ render_seq rs @ '')''"
| "render (Opt r) = render r @ ''?''"
| "render (Star r) = render r @ ''*''"
| "render (Alt a b) = render_seq a @ ''|'' @ render_seq b"
| "render_seq [] = []"
| "render_seq (r # rs) = render r @ render_seq rs"

fun ngroups :: "rx \<Rightarrow> nat" and ngroups_seq :: "rx list \<Rightarrow> nat" where
  "ngroups (NonCap rs) = ngroups_seq rs"
| "ngroups (Cap rs) = Suc (ngroups_seq rs)"
| "ngroups (Opt r) = ngroups r"
| "ngroups (Star r) = ngroups r"
| "ngroups (Alt a b) = ngroups_seq a + ngroups_seq b"
| "ngroups Bol = 0"
| "ngroups Eol = 0"
| "ngroups Slash = 0"
| "ngroups (Chars s) = 0"
| "ngroups Base = 0"
| "ngroups (Custom re) = 0"
| "ngroups_seq [] = 0"
| "ngroups_seq (r # rs) = ngroups r + ngroups_seq rs"

text \<open>
  The \<^verbatim>\<open>i\<close> flag compares characters through their upper case. A character is a code
  unit below 256: the letters \<^verbatim>\<open>a\<close> to \<^verbatim>\<open>z\<close> and the accented letters from 224 to 254 (but
  the division sign, 247) have their upper case 32 below; the others, among them the
  letters whose upper case is above 255 or is two characters, stand for themselves.
\<close>

definition toUpperCase :: "char \<Rightarrow> char" where
  "toUpperCase c =
     (let n = of_char c :: nat
      in if (97 \<le> n \<and> n \<le> 122) \<or> (224 \<le> n \<and> n \<le> 254 \<and> n \<noteq> 247) then char_of (n - 32)
         else c)"

definition same_chars :: "bool \<Rightarrow> string \<Rightarrow> string \<Rightarrow> bool" where
  "same_chars ignoreCase a b =
     (if ignoreCase then map toUpperCase a = map toUpperCase b else a = b)"

type_synonym captures = "string option list"

text \<open>
  A greedy \<^verbatim>\<open>*\<close>: one more turn first, the turns that consume nothing are dropped, then
  no turn. The captures are those of the last turn.
\<close>

primrec star_iter ::
  "nat \<Rightarrow> (string \<Rightarrow> (captures \<times> string) list) \<Rightarrow> captures \<Rightarrow> string \<Rightarrow>
   (captures \<times> string) list" where
  "star_iter 0 f caps s = [(caps, s)]"
| "star_iter (Suc k) f caps s =
     concat (map (\<lambda>(c, rest). if length rest < length s then star_iter k f c rest else [])
                 (f s))
     @ [(caps, s)]"

text \<open>
  The backtracking matcher: every way \<open>r\<close> can match at the front of \<open>s\<close>, in the
  engine's order, each with the captures of \<open>r\<close> and the input left over. \<open>inp\<close> is the
  whole input, for \<^verbatim>\<open>^\<close>.
\<close>

fun rmatch :: "engine \<Rightarrow> bool \<Rightarrow> string \<Rightarrow> rx \<Rightarrow> string \<Rightarrow> (captures \<times> string) list"
  and rmatch_seq ::
    "engine \<Rightarrow> bool \<Rightarrow> string \<Rightarrow> rx list \<Rightarrow> string \<Rightarrow> (captures \<times> string) list" where
  "rmatch e ic inp Bol s = (if length s = length inp then [([], s)] else [])"
| "rmatch e ic inp Eol s = (if s = [] then [([], s)] else [])"
| "rmatch e ic inp Slash s =
     (case s of c # cs \<Rightarrow> if c = CHR ''/'' then [([], cs)] else [] | [] \<Rightarrow> [])"
| "rmatch e ic inp (Chars lit) s =
     (if length lit \<le> length s \<and> same_chars ic (take (length lit) s) lit
      then [([], drop (length lit) s)] else [])"
| "rmatch e ic inp Base s =
     map (\<lambda>n. ([], drop n s)) [1 ..< Suc (length (takeWhile (\<lambda>c. c \<noteq> CHR ''/'') s))]"
| "rmatch e ic inp (Custom re) s =
     map (\<lambda>n. ([], drop n s)) (filter (\<lambda>n. n \<le> length s) (re_prefixes e re s))"
| "rmatch e ic inp (NonCap rs) s = rmatch_seq e ic inp rs s"
| "rmatch e ic inp (Cap rs) s =
     map (\<lambda>(c, rest). (Some (take (length s - length rest) s) # c, rest))
         (rmatch_seq e ic inp rs s)"
| "rmatch e ic inp (Opt r) s =
     filter (\<lambda>(c, rest). length rest < length s) (rmatch e ic inp r s)
     @ [(replicate (ngroups r) None, s)]"
| "rmatch e ic inp (Star r) s =
     star_iter (length s) (\<lambda>t. rmatch e ic inp r t) (replicate (ngroups r) None) s"
| "rmatch e ic inp (Alt a b) s =
     map (\<lambda>(c, rest). (c @ replicate (ngroups_seq b) None, rest)) (rmatch_seq e ic inp a s)
     @ map (\<lambda>(c, rest). (replicate (ngroups_seq a) None @ c, rest)) (rmatch_seq e ic inp b s)"
| "rmatch_seq e ic inp [] s = [([], s)]"
| "rmatch_seq e ic inp (r # rs) s =
     concat (map (\<lambda>(c1, s1). map (\<lambda>(c2, s2). (c1 @ c2, s2)) (rmatch_seq e ic inp rs s1))
                 (rmatch e ic inp r s))"

text \<open>
  \<^verbatim>\<open>path.match(re)\<close> for a regular expression without the \<^verbatim>\<open>g\<close> flag: the first start
  index, from 0 on, at which the pattern matches; the result is the list of the groups
  (\<^verbatim>\<open>match[1]\<close>, \<^verbatim>\<open>match[2]\<close>, ...), \<open>None\<close> for undefined.
\<close>

fun match_from :: "engine \<Rightarrow> bool \<Rightarrow> rx list \<Rightarrow> string \<Rightarrow> string \<Rightarrow> captures option" where
  "match_from e ic rs inp s =
     (case rmatch_seq e ic inp rs s of
        (c, rest) # _ \<Rightarrow> Some c
      | [] \<Rightarrow> (case s of [] \<Rightarrow> None | _ # s' \<Rightarrow> match_from e ic rs inp s'))"

definition match :: "engine \<Rightarrow> bool \<Rightarrow> rx list \<Rightarrow> string \<Rightarrow> captures option" where
  "match e ic rs inp = match_from e ic rs inp inp"

section \<open>Pattern compiler (matcher/pathParserRanker.ts, tokensToParser)\<close>

record PathParserParamKey =
  name :: string
  repeatable :: bool
  optional :: bool

record PathParserOptions =
  sensitive :: bool
  strict :: bool
  start :: bool
  end' :: bool

definition BASE_PATH_PARSER_OPTIONS :: PathParserOptions where
  "BASE_PATH_PARSER_OPTIONS = \<lparr> sensitive = False, strict = False, start = True, end' = True \<rparr>"






text \<open>
  The parser object. \<open>pattern\<close> is the source text given to \<^verbatim>\<open>new RegExp\<close>, \<open>re\<close> the
  syntax tree of that text, \<open>ignoreCase\<close> the \<^verbatim>\<open>i\<close> flag; \<open>segments\<close> is the variable the
  closures \<^verbatim>\<open>parse\<close> and \<^verbatim>\<open>stringify\<close> capture.
\<close>

record PathParser =
  pattern :: string
  re :: "rx list"
  ignoreCase :: bool
  score :: "score list list"
  keys :: "PathParserParamKey list"
  segments :: "Token list list"

datatype parser_error =
    InvalidCustomRegExp string string
  | MissingRequiredParam string
  | ParamNotRepeatable string
  | TypeError

text \<open>The variables of the loop over the segments.\<close>

record compiler =
  c_pattern :: string
  c_re :: "rx list"
  c_keys :: "PathParserParamKey list"
  c_score :: "score list list"

text \<open>
  The body of the loop over the tokens of one segment: \<open>len\<close> is \<^verbatim>\<open>segment.length\<close>,
  \<open>tokenIndex\<close> the index of \<open>token\<close>, \<open>segmentScores\<close> the scores of the segment so far.
\<close>

fun compile_token ::
  "engine \<Rightarrow> PathParserOptions \<Rightarrow> nat \<Rightarrow> nat \<Rightarrow> Token \<Rightarrow> compiler \<times> score list \<Rightarrow>
   parser_error + compiler \<times> score list" where
  "compile_token e options len tokenIndex (TokenStatic v) (c, segmentScores) =
     (let subSegmentScore =
            PathScore_Segment + (if sensitive options then PathScore_BonusCaseSensitive else 0)
      in Inr (c\<lparr> c_pattern := c_pattern c @ (if tokenIndex = 0 then ''/'' else [])
                                 @ escape_regex v,
                 c_re := c_re c @ (if tokenIndex = 0 then [Slash] else []) @ [Chars v] \<rparr>,
              segmentScores @ [subSegmentScore + PathScore_Static]))"
| "compile_token e options len tokenIndex (TokenParam v regexp opt rep) (c, segmentScores) =
     (let subSegmentScore =
            PathScore_Segment + (if sensitive options then PathScore_BonusCaseSensitive else 0);
          ks = c_keys c @ [\<lparr> name = v, repeatable = rep, optional = opt \<rparr>];
          re = (if regexp \<noteq> [] then regexp else BASE_PARAM_PATTERN)
      in if re \<noteq> BASE_PARAM_PATTERN \<and> \<not> re_valid e re then Inl (InvalidCustomRegExp v re)
         else
          (let subSegmentScore1 =
                 (if re \<noteq> BASE_PARAM_PATTERN then subSegmentScore + PathScore_BonusCustomRegExp
                  else subSegmentScore);
               atom = (if re = BASE_PARAM_PATTERN then Base else Custom re);
               subPattern = (if rep then ''((?:'' @ re @ '')(?:/(?:'' @ re @ ''))*)''
                             else ''('' @ re @ '')'');
               sub = (if rep then Cap [NonCap [atom], Star (NonCap [Slash, NonCap [atom]])]
                      else Cap [atom]);
               subPattern1 = (if tokenIndex = 0
                              then (if opt \<and> len < 2 then ''(?:/'' @ subPattern @ '')''
                                    else ''/'' @ subPattern)
                              else subPattern);
               sub1 = (if tokenIndex = 0
                       then (if opt \<and> len < 2 then [NonCap [Slash, sub]] else [Slash, sub])
                       else [sub]);
               subPattern2 = (if opt then subPattern1 @ ''?'' else subPattern1);
               sub2 = (if opt then butlast sub1 @ [Opt (last sub1)] else sub1);
               subSegmentScore2 = subSegmentScore1 + PathScore_Dynamic;
               subSegmentScore3 =
                 (if opt then subSegmentScore2 + PathScore_BonusOptional else subSegmentScore2);
               subSegmentScore4 =
                 (if rep then subSegmentScore3 + PathScore_BonusRepeatable else subSegmentScore3);
               subSegmentScore5 =
                 (if re = ''.*'' then subSegmentScore4 + PathScore_BonusWildcard
                  else subSegmentScore4)
           in Inr (c\<lparr> c_pattern := c_pattern c @ subPattern2,
                      c_re := c_re c @ sub2,
                      c_keys := ks \<rparr>,
                   segmentScores @ [subSegmentScore5])))"
| "compile_token e options len tokenIndex (TokenGroup ts) (c, segmentScores) =
     (let subSegmentScore =
            PathScore_Segment + (if sensitive options then PathScore_BonusCaseSensitive else 0)
      in Inr (c, segmentScores @ [subSegmentScore]))"

fun compile_tokens ::
  "engine \<Rightarrow> PathParserOptions \<Rightarrow> nat \<Rightarrow> nat \<Rightarrow> Token list \<Rightarrow> compiler \<times> score list \<Rightarrow>
   parser_error + compiler \<times> score list" where
  "compile_tokens e options len tokenIndex [] cs = Inr cs"
| "compile_tokens e options len tokenIndex (token # rest) cs =
     (case compile_token e options len tokenIndex token cs of
        Inl err \<Rightarrow> Inl err
      | Inr cs' \<Rightarrow> compile_tokens e options len (tokenIndex + 1) rest cs')"

definition compile_segment ::
  "engine \<Rightarrow> PathParserOptions \<Rightarrow> Token list \<Rightarrow> compiler \<Rightarrow> parser_error + compiler" where
  "compile_segment e options seg c =
     (let segmentScores = (if length seg \<noteq> 0 then [] else [PathScore_Root]);
          c1 = (if strict options \<and> length seg = 0
                then c\<lparr> c_pattern := c_pattern c @ ''/'', c_re := c_re c @ [Slash] \<rparr> else c)
      in case compile_tokens e options (length seg) 0 seg (c1, segmentScores) of
           Inl err \<Rightarrow> Inl err
         | Inr (c2, segmentScores') \<Rightarrow> Inr (c2\<lparr> c_score := c_score c2 @ [segmentScores'] \<rparr>))"

fun compile_segments ::
  "engine \<Rightarrow> PathParserOptions \<Rightarrow> Token list list \<Rightarrow> compiler \<Rightarrow> parser_error + compiler" where
  "compile_segments e options [] c = Inr c"
| "compile_segments e options (seg # rest) c =
     (case compile_segment e options seg c of
        Inl err \<Rightarrow> Inl err
      | Inr c' \<Rightarrow> compile_segments e options rest c')"

text \<open>
  \<^verbatim>\<open>score[i][score[i].length - 1] += PathScore.BonusStrict\<close> with \<^verbatim>\<open>i = score.length - 1\<close>;
  reading \<^verbatim>\<open>score[-1]\<close> of an empty score is a TypeError.
\<close>

definition add_strict_bonus :: "score list list \<Rightarrow> parser_error + score list list" where
  "add_strict_bonus sc =
     (if sc = [] then Inl TypeError
      else (let l = last sc
            in if l = [] then Inr sc
               else Inr (butlast sc @ [butlast l @ [last l + PathScore_BonusStrict]])))"

definition tokensToParser ::
  "engine \<Rightarrow> Token list list \<Rightarrow> PathParserOptions \<Rightarrow> parser_error + PathParser" where
  "tokensToParser e segs options =
     (case compile_segments e options segs
             \<lparr> c_pattern = (if start options then ''^'' else []),
               c_re = (if start options then [Bol] else []),
               c_keys = [], c_score = [] \<rparr> of
        Inl err \<Rightarrow> Inl err
      | Inr c \<Rightarrow>
          (case (if strict options \<and> end' options then add_strict_bonus (c_score c)
                 else Inr (c_score c)) of
             Inl err \<Rightarrow> Inl err
           | Inr sc \<Rightarrow>
               (let c1 = (if \<not> strict options
                          then c\<lparr> c_pattern := c_pattern c @ ''/?'', c_re := c_re c @ [Opt Slash] \<rparr>
                          else c);
                    c2 = (if end' options
                          then c1\<lparr> c_pattern := c_pattern c1 @ ''$'', c_re := c_re c1 @ [Eol] \<rparr>
                          else if strict options \<and> \<not> endsWith (c_pattern c1) ''/''
                          then c1\<lparr> c_pattern := c_pattern c1 @ ''(?:/|$)'',
                                   c_re := c_re c1 @ [NonCap [Alt [Slash] [Eol]]] \<rparr>
                          else c1)
                in Inr \<lparr> pattern = c_pattern c2, re = c_re c2,
                         ignoreCase = \<not> sensitive options,
                         score = sc, keys = c_keys c2, segments = segs \<rparr>)))"








text \<open>The comparison of two parsers by their scores.\<close>

function comparePathParserScore_loop ::
  "nat \<Rightarrow> score list list \<Rightarrow> score list list \<Rightarrow> score option" where
  "comparePathParserScore_loop i aScore bScore =
     (if i < length aScore \<and> i < length bScore
      then (let comp' = compareScoreArray (aScore ! i) (bScore ! i)
            in if comp' \<noteq> 0 then Some comp' else comparePathParserScore_loop (i + 1) aScore bScore)
      else None)"
  by pat_completeness auto
termination
  by (relation "measure (\<lambda>(i, a, b). length a - i)") auto

declare comparePathParserScore_loop.simps [simp del]

definition comparePathParserScore ::
  "'a PathParser_scheme \<Rightarrow> 'b PathParser_scheme \<Rightarrow> score" where
  "comparePathParserScore a b =
     (let aScore = score a; bScore = score b
      in case comparePathParserScore_loop 0 aScore bScore of
           Some comp' \<Rightarrow> comp'
         | None \<Rightarrow>
             if \<bar>int (length bScore) - int (length aScore)\<bar> = 1 \<and> isLastScoreNegative aScore
             then 1
             else if \<bar>int (length bScore) - int (length aScore)\<bar> = 1
                     \<and> isLastScoreNegative bScore
             then - 1
             else of_int (int (length bScore) - int (length aScore)))"

section \<open>Matcher table\<close>

text \<open>
  Modelled from the spec: the matcher table (matcher/index.ts) is not among the sources.
  The spec has a record inserted into the list of its siblings at the position that
  preserves the descending rank order, and a path resolved by a linear scan over the
  compiled regular expressions in which the first match wins. A table entry is the
  record's path with its parser.
\<close>

type_synonym matcher_table = "(string \<times> PathParser) list"

fun insertMatcher :: "string \<times> PathParser \<Rightarrow> matcher_table \<Rightarrow> matcher_table" where
  "insertMatcher m [] = [m]"
| "insertMatcher m (x # xs) =
     (if comparePathParserScore (snd m) (snd x) < 0 then m # x # xs
      else x # insertMatcher m xs)"

fun resolve_path :: "engine \<Rightarrow> matcher_table \<Rightarrow> string \<Rightarrow> string option" where
  "resolve_path e [] path = None"
| "resolve_path e (m # ms) path =
     (case match e (ignoreCase (snd m)) (re (snd m)) path of
        Some groups \<Rightarrow> Some (fst m)
      | None \<Rightarrow> resolve_path e ms path)"

text \<open>
  \<^verbatim>\<open>tokensToParser(tokenizePath(record.path), options)\<close>, the parser of a record as
  \<^verbatim>\<open>createRouteRecordMatcher\<close> builds it; \<open>None\<close> when either step throws.
\<close>

definition compile_path :: "engine \<Rightarrow> string \<Rightarrow> PathParserOptions \<Rightarrow> PathParser option" where
  "compile_path e path options =
     (case tokenizePath path of
        Inl err \<Rightarrow> None
      | Inr segs \<Rightarrow>
          (case tokensToParser e segs options of Inl err \<Rightarrow> None | Inr p \<Rightarrow> Some p))"

text \<open>
  The built-in prototypes as Node.js has them; a native function prints as
  \<^verbatim>\<open>function name() { [native code] }\<close>.
\<close>

definition native_function :: "string \<Rightarrow> JSValue" where
  "native_function n = JSOther True (''function '' @ n @ ''() { [native code] }'')"

definition Object_prototype_names :: "string list" where
  "Object_prototype_names =
     [''__defineGetter__'', ''__defineSetter__'', ''hasOwnProperty'', ''__lookupGetter__'',
      ''__lookupSetter__'', ''isPrototypeOf'', ''propertyIsEnumerable'', ''valueOf'']"

definition Object_prototype :: "string \<rightharpoonup> JSValue" where
  "Object_prototype =
     map_of ((''constructor'', native_function ''Object'')
             # (''__proto__'', JSOther True ''[object Object]'')
             # map (\<lambda>n. (n, native_function n))
                 (Object_prototype_names @ [''toString'', ''toLocaleString'']))"

definition Array_prototype :: "string \<rightharpoonup> JSValue" where
  "Array_prototype =
     map_of ((''constructor'', native_function ''Array'')
             # map (\<lambda>n. (n, native_function n))
                 ([''at'', ''concat'', ''copyWithin'', ''fill'', ''find'', ''findIndex'',
                   ''findLast'', ''findLastIndex'', ''lastIndexOf'', ''pop'', ''push'',
                   ''reverse'', ''shift'', ''unshift'', ''slice'', ''sort'', ''splice'',
                   ''includes'', ''indexOf'', ''join'', ''keys'', ''entries'', ''values'',
                   ''forEach'', ''filter'', ''flat'', ''flatMap'', ''map'', ''every'', ''some'',
                   ''reduce'', ''reduceRight'', ''toReversed'', ''toSorted'', ''toSpliced'',
                   ''with'', ''toLocaleString'', ''toString'']
                  @ Object_prototype_names))"

text \<open>An engine for the patterns without custom regular expressions.\<close>

definition no_custom_engine :: engine where
  "no_custom_engine =
     \<lparr> re_valid = (\<lambda>re. True), re_prefixes = (\<lambda>re s. []),
       object_prototype = Object_prototype, array_prototype = Array_prototype \<rparr>"

text \<open>
  Modelled from the spec: adding the records of a list of paths, in order, to a table,
  each compiled with the default options.
\<close>

fun addRoutes :: "engine \<Rightarrow> string list \<Rightarrow> matcher_table \<Rightarrow> matcher_table" where
  "addRoutes e [] table = table"
| "addRoutes e (path # paths) table =
     (case compile_path e path BASE_PATH_PARSER_OPTIONS of
        None \<Rightarrow> addRoutes e paths table
      | Some p \<Rightarrow> addRoutes e paths (insertMatcher (path, p) table))"

text \<open>The comparison of the parsers of two paths; whether the parser of a path matches.\<close>

definition rank :: "engine \<Rightarrow> string \<Rightarrow> string \<Rightarrow> score option" where
  "rank e a b =
     (case (compile_path e a BASE_PATH_PARSER_OPTIONS, compile_path e b BASE_PATH_PARSER_OPTIONS) of
        (Some pa, Some pb) \<Rightarrow> Some (comparePathParserScore pa pb)
      | _ \<Rightarrow> None)"

definition matches :: "engine \<Rightarrow> string \<Rightarrow> string \<Rightarrow> bool" where
  "matches e pat path =
     (case compile_path e pat BASE_PATH_PARSER_OPTIONS of
        None \<Rightarrow> False
      | Some p \<Rightarrow> match e (ignoreCase p) (re p) path \<noteq> None)"

section \<open>What \<^verbatim>\<open>stringify\<close> reports\<close>







section \<open>Repeatable parameters in a segment\<close>

fun repeatable_token :: "Token \<Rightarrow> bool" where
  "repeatable_token (TokenParam v regexp opt rep) = rep"
| "repeatable_token (TokenStatic v) = False"
| "repeatable_token (TokenGroup ts) = False"


text \<open>No repeatable parameter of the segment has two or more tokens before it.\<close>

definition repeatable_early :: "Token list \<Rightarrow> bool" where
  "repeatable_early seg = list_all (\<lambda>t. \<not> repeatable_token t) (drop 2 seg)"

definition tokenizer_early :: "tokenizer \<Rightarrow> bool" where
  "tokenizer_early t =
     (list_all repeatable_early (tokens t)
      \<and> (case segment t of None \<Rightarrow> True | Some seg \<Rightarrow> repeatable_early seg))"

section \<open>Route locations (location.ts, types)\<close>

text \<open>
  Objects are association lists with one entry per own key. A history state and a query
  are opaque to the router; the parameters hold strings and arrays of strings.
\<close>

type_synonym HistoryState = "(string \<times> string) list"
type_synonym LocationQuery = "(string \<times> string list) list"
type_synonym RouteParams = "(string \<times> ParamValue) list"

text \<open>
  A raw location is a string or an object; the fields of the object are those the router
  reads, \<open>None\<close> when the property is absent.
\<close>

record RouteLocationRawObject =
  raw_path :: "string option"
  raw_name :: "string option"
  raw_params :: "RouteParams option"
  raw_query :: "LocationQuery option"
  raw_hash :: "string option"
  raw_state :: "HistoryState option"
  raw_force :: "bool option"
  raw_replace :: "bool option"

datatype RouteLocationRaw = RawString string | RawObject RouteLocationRawObject

text \<open>
  Guards, redirect functions and hooks are user callbacks: they are named by a number,
  and what they return is a parameter of the model.
\<close>

datatype RouteRecordRedirect =
    RedirectString string
  | RedirectObject RouteLocationRawObject
  | RedirectFunction nat

record RouteRecordNormalized = RouteRecord +
  record_path :: string
  redirect :: "RouteRecordRedirect option"
  beforeEnter :: "nat list"
  leaveGuards :: "nat list"
  updateGuards :: "nat list"

text \<open>
  A resolved location. \<open>loc_id\<close> is the identity of the object (locations are compared
  by reference), \<open>loc_count\<close> the property \<^verbatim>\<open>_count\<close> that the redirect check adds, 0
  when it is undefined. \<open>redirectedFrom\<close> is a location that has no \<open>redirectedFrom\<close> of
  its own.
\<close>

record RouteLocationBase =
  loc_id :: nat
  loc_path :: string
  loc_fullPath :: string
  loc_name :: "string option"
  loc_params :: RouteParams
  loc_query :: LocationQuery
  loc_hash :: string
  loc_matched :: "RouteRecordNormalized list"
  loc_count :: nat

record RouteLocation = RouteLocationBase +
  redirectedFrom :: "RouteLocationBase option"

definition START_LOCATION_NORMALIZED :: RouteLocation where
  "START_LOCATION_NORMALIZED =
     \<lparr> loc_id = 0, loc_path = ''/'', loc_fullPath = ''/'', loc_name = None, loc_params = [],
       loc_query = [], loc_hash = [], loc_matched = [], loc_count = 0, redirectedFrom = None \<rparr>"

text \<open>\<^verbatim>\<open>isEquivalentArray\<close>, \<^verbatim>\<open>isSameRouteLocationParamsValue\<close>; \<open>None\<close> is undefined.\<close>

definition isEquivalentArray :: "string list \<Rightarrow> ParamValue option \<Rightarrow> bool" where
  "isEquivalentArray a b =
     (case b of
        Some (PArray bs) \<Rightarrow> length a = length bs \<and> list_all2 (=) a bs
      | Some (PString s) \<Rightarrow> length a = 1 \<and> a ! 0 = s
      | None \<Rightarrow> False)"

definition isSameRouteLocationParamsValue :: "ParamValue option \<Rightarrow> ParamValue option \<Rightarrow> bool" where
  "isSameRouteLocationParamsValue a b =
     (case a of
        Some (PArray xs) \<Rightarrow> isEquivalentArray xs b
      | _ \<Rightarrow> (case b of Some (PArray ys) \<Rightarrow> isEquivalentArray ys a | _ \<Rightarrow> a = b))"

definition isSameRouteLocationParams :: "RouteParams \<Rightarrow> RouteParams \<Rightarrow> bool" where
  "isSameRouteLocationParams a b =
     (if length a \<noteq> length b then False
      else list_all (\<lambda>(key, v). isSameRouteLocationParamsValue (Some v) (map_of b key)) a)"

definition isSameRouteLocation ::
  "(LocationQuery \<Rightarrow> string) \<Rightarrow> 'a RouteLocationBase_scheme \<Rightarrow> 'b RouteLocationBase_scheme \<Rightarrow> bool"
  where
  "isSameRouteLocation stringifyQuery a b =
     (let aLastIndex = int (length (loc_matched a)) - 1;
          bLastIndex = int (length (loc_matched b)) - 1
      in aLastIndex > - 1
         \<and> aLastIndex = bLastIndex
         \<and> isSameRouteRecord (loc_matched a ! nat aLastIndex) (loc_matched b ! nat bLastIndex)
         \<and> isSameRouteLocationParams (loc_params a) (loc_params b)
         \<and> stringifyQuery (loc_query a) = stringifyQuery (loc_query b)
         \<and> loc_hash a = loc_hash b)"

section \<open>Navigation failures (errors.ts)\<close>

text \<open>
  Modelled from the spec: the error types and \<^verbatim>\<open>isNavigationFailure\<close> are declared in
  errors.ts, which is not among the sources. A failure carries its type and the two
  locations; a guard redirect carries the raw location the guard returned; \<open>Error\<close> is
  any other thrown value, with its message.
\<close>

datatype ErrorTypes =
    MATCHER_NOT_FOUND
  | NAVIGATION_GUARD_REDIRECT
  | NAVIGATION_ABORTED
  | NAVIGATION_CANCELLED
  | NAVIGATION_DUPLICATED

datatype NavigationFailureType = aborted | cancelled | duplicated

datatype router_error =
    NavigationFailure NavigationFailureType RouteLocation RouteLocation
  | NavigationRedirectError RouteLocation RouteLocationRaw
  | Error string

fun error_type :: "router_error \<Rightarrow> ErrorTypes option" where
  "error_type (NavigationFailure aborted from to) = Some NAVIGATION_ABORTED"
| "error_type (NavigationFailure cancelled from to) = Some NAVIGATION_CANCELLED"
| "error_type (NavigationFailure duplicated from to) = Some NAVIGATION_DUPLICATED"
| "error_type (NavigationRedirectError from to) = Some NAVIGATION_GUARD_REDIRECT"
| "error_type (Error msg) = None"

text \<open>\<^verbatim>\<open>isNavigationFailure(error, type)\<close>; the empty list is the call without a type.\<close>

definition isNavigationFailure :: "router_error \<Rightarrow> ErrorTypes list \<Rightarrow> bool" where
  "isNavigationFailure error types =
     (case error_type error of
        None \<Rightarrow> False
      | Some ty \<Rightarrow> types = [] \<or> ty \<in> set types)"

section \<open>The router (router.ts)\<close>

datatype NavigationGuardReturn =
    GuardVoid
  | GuardTrue
  | GuardFalse
  | GuardLocation RouteLocationRaw
  | GuardError string

datatype guard_kind = beforeRouteLeave | beforeRouteUpdate | beforeRouteEnter

text \<open>
  The options and the surroundings of a router. The matcher, the encoding and the query
  parser are not among the sources: what \<^verbatim>\<open>resolve\<close> computes from a raw location and the
  current route, a location or a thrown error, is the parameter \<open>resolve_location\<close>, what \<^verbatim>\<open>parseURL\<close> computes from a
  string and the current path is \<open>parseURL\<close>. \<open>guard_return g to from\<close> is what the guard
  \<open>g\<close> returns, \<open>redirect_function f to\<close> what the redirect function \<open>f\<close> returns, and
  \<open>extractComponentsGuards\<close> lists the guards the components of some records declare.
\<close>

record Config =
  DEV :: bool
  isBrowser :: bool
  has_scrollBehavior :: bool
  resolve_location :: "RouteLocationRaw \<Rightarrow> RouteLocation \<Rightarrow> router_error + RouteLocation"
  parseURL :: "string \<Rightarrow> string \<Rightarrow> RouteLocationRawObject"
  stringifyQuery :: "LocationQuery \<Rightarrow> string"
  guard_return :: "nat \<Rightarrow> RouteLocation \<Rightarrow> RouteLocation \<Rightarrow> NavigationGuardReturn"
  redirect_function :: "nat \<Rightarrow> RouteLocation \<Rightarrow> RouteLocationRaw"
  extractComponentsGuards ::
    "RouteRecordNormalized list \<Rightarrow> guard_kind \<Rightarrow> RouteLocation \<Rightarrow> RouteLocation \<Rightarrow> nat list"

text \<open>What the router does to the outside, in the order it does it.\<close>

datatype event =
    AfterEach nat RouteLocation RouteLocation "router_error option"
  | OnError nat router_error RouteLocation RouteLocation
  | ConsoleError router_error
  | ReadySettled nat "router_error option"
  | HandleScroll RouteLocation RouteLocation bool bool bool

text \<open>
  The variables of the closure \<^verbatim>\<open>createRouter\<close>. \<open>nextId\<close> numbers the location objects
  that \<^verbatim>\<open>resolve\<close> creates, \<open>removeHistoryListener\<close> says whether the listener of the
  history is set up.
\<close>

record Router =
  currentRoute :: RouteLocation
  pendingLocation :: RouteLocation
  nextId :: nat
  routerHistory :: MemoryHistory
  beforeGuards :: "nat list"
  beforeResolveGuards :: "nat list"
  afterGuards :: "nat list"
  errorListeners :: "nat list"
  readyHandlers :: "nat list"
  ready :: bool
  removeHistoryListener :: bool
  events :: "event list"

definition createRouter :: Router where
  "createRouter =
     \<lparr> currentRoute = START_LOCATION_NORMALIZED, pendingLocation = START_LOCATION_NORMALIZED,
       nextId = 1, routerHistory = createMemoryHistory, beforeGuards = [],
       beforeResolveGuards = [], afterGuards = [], errorListeners = [], readyHandlers = [],
       ready = False, removeHistoryListener = False, events = [] \<rparr>"

text \<open>\<^verbatim>\<open>resolve\<close>: a new location object each time.\<close>

definition resolve ::
  "Config \<Rightarrow> RouteLocationRaw \<Rightarrow> Router \<Rightarrow> (router_error + RouteLocation) \<times> Router" where
  "resolve cfg rawLocation r =
     (case resolve_location cfg rawLocation (currentRoute r) of
        Inl err \<Rightarrow> (Inl err, r)
      | Inr l \<Rightarrow>
          (Inr (l\<lparr> loc_id := nextId r, loc_count := 0, redirectedFrom := None \<rparr>),
           r\<lparr> nextId := nextId r + 1 \<rparr>))"

definition locationAsObject :: "Config \<Rightarrow> Router \<Rightarrow> RouteLocationRaw \<Rightarrow> RouteLocationRawObject" where
  "locationAsObject cfg r to =
     (case to of
        RawString s \<Rightarrow> parseURL cfg s (loc_path (currentRoute r))
      | RawObject obj \<Rightarrow> obj)"

definition checkCanceledNavigation ::
  "Router \<Rightarrow> RouteLocation \<Rightarrow> RouteLocation \<Rightarrow> router_error option" where
  "checkCanceledNavigation r to from =
     (if loc_id (pendingLocation r) \<noteq> loc_id to
      then Some (NavigationFailure cancelled from to) else None)"

text \<open>\<^verbatim>\<open>Object.assign\<close> on two optional objects and on optional properties.\<close>

definition assign_state :: "HistoryState option \<Rightarrow> HistoryState option \<Rightarrow> HistoryState" where
  "assign_state a b =
     (let a' = (case a of None \<Rightarrow> [] | Some x \<Rightarrow> x);
          b' = (case b of None \<Rightarrow> [] | Some x \<Rightarrow> x)
      in filter (\<lambda>(k, v). k \<notin> set (map fst b')) a' @ b')"

definition or_else :: "'a option \<Rightarrow> 'a option \<Rightarrow> 'a option" where
  "or_else a b = (case a of Some x \<Rightarrow> Some x | None \<Rightarrow> b)"

definition string_includes :: "string \<Rightarrow> char \<Rightarrow> bool" where
  "string_includes s c = (c \<in> set s)"

text \<open>
  \<^verbatim>\<open>handleRedirectRecord\<close>: the raw location a redirect record sends to, \<open>None\<close> when the
  last matched record has no redirect, an error for the redirect without path and name
  that a development build refuses.
\<close>

definition handleRedirectRecord ::
  "Config \<Rightarrow> Router \<Rightarrow> RouteLocation \<Rightarrow> router_error + RouteLocationRawObject option" where
  "handleRedirectRecord cfg r to =
     (if loc_matched to = [] then Inr None
      else (case redirect (last (loc_matched to)) of
        None \<Rightarrow> Inr None
      | Some rd \<Rightarrow>
          (let newTargetLocation =
                 (case rd of
                    RedirectFunction f \<Rightarrow> redirect_function cfg f to
                  | RedirectString s \<Rightarrow> RawString s
                  | RedirectObject obj \<Rightarrow> RawObject obj);
               obj =
                 (case newTargetLocation of
                    RawString s \<Rightarrow>
                      (if string_includes s CHR ''?'' \<or> string_includes s CHR ''#''
                       then locationAsObject cfg r (RawString s)
                       else \<lparr> raw_path = Some s, raw_name = None, raw_params = None,
                              raw_query = None, raw_hash = None, raw_state = None,
                              raw_force = None, raw_replace = None \<rparr>)
                        \<lparr> raw_params := Some [] \<rparr>
                  | RawObject obj \<Rightarrow> obj)
           in if DEV cfg \<and> raw_path obj = None \<and> raw_name obj = None
              then Inl (Error ''Invalid redirect'')
              else Inr (Some (obj\<lparr>
                     raw_query := or_else (raw_query obj) (Some (loc_query to)),
                     raw_hash := or_else (raw_hash obj) (Some (loc_hash to)),
                     raw_params := or_else (raw_params obj)
                       (Some (if raw_path obj \<noteq> None then [] else loc_params to)) \<rparr>)))))"

definition setupListeners :: "Router \<Rightarrow> Router" where
  "setupListeners r =
     (if removeHistoryListener r then r
      else r\<lparr> routerHistory := listen 0 (routerHistory r), removeHistoryListener := True \<rparr>)"

definition markAsReady :: "router_error option \<Rightarrow> Router \<Rightarrow> Router" where
  "markAsReady err r =
     (if \<not> ready r
      then (let r1 = setupListeners (r\<lparr> ready := (err = None) \<rparr>)
            in r1\<lparr> events := events r1 @ map (\<lambda>h. ReadySettled h err) (readyHandlers r1),
                   readyHandlers := [] \<rparr>)
      else r)"

definition triggerError :: "router_error \<Rightarrow> RouteLocation \<Rightarrow> RouteLocation \<Rightarrow> Router \<Rightarrow> Router" where
  "triggerError error to from r =
     (let r1 = markAsReady (Some error) r
      in if errorListeners r1 \<noteq> []
         then r1\<lparr> events := events r1 @ map (\<lambda>h. OnError h error to from) (errorListeners r1) \<rparr>
         else r1\<lparr> events := events r1 @ [ConsoleError error] \<rparr>)"

text \<open>
  \<^verbatim>\<open>handleScroll\<close>: the call is recorded with its arguments. Without a browser or a
  scroll behaviour it returns at once; otherwise it leaves the call of the scroll
  behaviour to the next tick, which the last component of the event says.
\<close>

definition handleScroll ::
  "Config \<Rightarrow> RouteLocation \<Rightarrow> RouteLocation \<Rightarrow> bool \<Rightarrow> bool \<Rightarrow> Router \<Rightarrow> Router" where
  "handleScroll cfg to from isPush isFirstNavigation r =
     r\<lparr> events := events r @
          [HandleScroll to from isPush isFirstNavigation
             (isBrowser cfg \<and> has_scrollBehavior cfg)] \<rparr>"

definition triggerAfterEach ::
  "RouteLocation \<Rightarrow> RouteLocation \<Rightarrow> router_error option \<Rightarrow> Router \<Rightarrow> Router" where
  "triggerAfterEach to from failure r =
     r\<lparr> events := events r @ map (\<lambda>g. AfterEach g to from failure) (afterGuards r) \<rparr>"

text \<open>
  \<^verbatim>\<open>finalizeNavigation\<close>. The history of the model is the in-memory one, whose
  \<^verbatim>\<open>push\<close> and \<^verbatim>\<open>replace\<close> do not read the state they are given.
\<close>

definition finalizeNavigation ::
  "Config \<Rightarrow> RouteLocation \<Rightarrow> RouteLocation \<Rightarrow> bool \<Rightarrow> bool \<Rightarrow> Router \<Rightarrow>
   router_error option \<times> Router"
  where
  "finalizeNavigation cfg toLocation from isPush replace' r =
     (case checkCanceledNavigation r toLocation from of
        Some error \<Rightarrow> (Some error, r)
      | None \<Rightarrow>
          (let isFirstNavigation = (loc_id from = loc_id START_LOCATION_NORMALIZED);
               r1 = (if isPush
                     then (if replace' \<or> isFirstNavigation
                           then r\<lparr> routerHistory :=
                                     replace_history (loc_fullPath toLocation) (routerHistory r) \<rparr>
                           else r\<lparr> routerHistory :=
                                     push_history (loc_fullPath toLocation) (routerHistory r) \<rparr>)
                     else r);
               r2 = r1\<lparr> currentRoute := toLocation \<rparr>;
               r3 = handleScroll cfg toLocation from isPush isFirstNavigation r2
           in (None, markAsReady None r3)))"

text \<open>
  \<^verbatim>\<open>extractChangingRecords\<close>: the loop over the indices of the longer of the two lists.
\<close>

definition has_same_record :: "RouteRecordNormalized list \<Rightarrow> RouteRecordNormalized \<Rightarrow> bool" where
  "has_same_record records x = list_ex (\<lambda>record. isSameRouteRecord record x) records"

fun extractChangingRecords_loop ::
  "RouteLocation \<Rightarrow> RouteLocation \<Rightarrow> nat list \<Rightarrow>
   RouteRecordNormalized list \<times> RouteRecordNormalized list \<times> RouteRecordNormalized list \<Rightarrow>
   RouteRecordNormalized list \<times> RouteRecordNormalized list \<times> RouteRecordNormalized list" where
  "extractChangingRecords_loop to from [] acc = acc"
| "extractChangingRecords_loop to from (i # is)
     (leavingRecords, updatingRecords, enteringRecords) =
     (let (leaving1, updating1) =
            (if i < length (loc_matched from)
             then (let recordFrom = loc_matched from ! i
                   in if has_same_record (loc_matched to) recordFrom
                      then (leavingRecords, updatingRecords @ [recordFrom])
                      else (leavingRecords @ [recordFrom], updatingRecords))
             else (leavingRecords, updatingRecords));
          entering1 =
            (if i < length (loc_matched to)
             then (let recordTo = loc_matched to ! i
                   in if \<not> has_same_record (loc_matched from) recordTo
                      then enteringRecords @ [recordTo] else enteringRecords)
             else enteringRecords)
      in extractChangingRecords_loop to from is (leaving1, updating1, entering1))"

definition extractChangingRecords ::
  "RouteLocation \<Rightarrow> RouteLocation \<Rightarrow>
   RouteRecordNormalized list \<times> RouteRecordNormalized list \<times> RouteRecordNormalized list" where
  "extractChangingRecords to from =
     extractChangingRecords_loop to from
       [0 ..< max (length (loc_matched from)) (length (loc_matched to))] ([], [], [])"

text \<open>
  Modelled from the spec: \<^verbatim>\<open>guardToPromiseFn\<close> (navigationGuards.ts) is not among the
  sources. The spec has no return or \<^verbatim>\<open>true\<close> advance, \<^verbatim>\<open>false\<close> abort with a
  NavigationAborted failure, a location redirect, and a thrown error reject with that
  error. The result is the rejection, \<open>None\<close> when the promise resolves.
\<close>

definition guardToPromiseFn ::
  "Config \<Rightarrow> nat \<Rightarrow> RouteLocation \<Rightarrow> RouteLocation \<Rightarrow> router_error option" where
  "guardToPromiseFn cfg guard to from =
     (case guard_return cfg guard to from of
        GuardVoid \<Rightarrow> None
      | GuardTrue \<Rightarrow> None
      | GuardFalse \<Rightarrow> Some (NavigationFailure aborted from to)
      | GuardLocation raw \<Rightarrow> Some (NavigationRedirectError to raw)
      | GuardError msg \<Rightarrow> Some (Error msg))"

text \<open>
  \<^verbatim>\<open>runGuardQueue\<close> on the guards of one phase followed by the check for a cancelled
  navigation: the guards run one after the other, the first rejection ends the queue.
\<close>

fun runGuardQueue ::
  "Config \<Rightarrow> Router \<Rightarrow> RouteLocation \<Rightarrow> RouteLocation \<Rightarrow> nat list \<Rightarrow> router_error option" where
  "runGuardQueue cfg r to from [] = checkCanceledNavigation r to from"
| "runGuardQueue cfg r to from (guard # guards) =
     (case guardToPromiseFn cfg guard to from of
        Some error \<Rightarrow> Some error
      | None \<Rightarrow> runGuardQueue cfg r to from guards)"

text \<open>The guards of the six phases of \<^verbatim>\<open>navigate\<close>, in the order they run.\<close>

definition navigate_phases ::
  "Config \<Rightarrow> Router \<Rightarrow> RouteLocation \<Rightarrow> RouteLocation \<Rightarrow> nat list list" where
  "navigate_phases cfg r to from =
     (let (leavingRecords, updatingRecords, enteringRecords) = extractChangingRecords to from;
          leavingReversed = rev leavingRecords
      in [ extractComponentsGuards cfg leavingReversed beforeRouteLeave to from
             @ concat (map leaveGuards leavingReversed),
           beforeGuards r,
           extractComponentsGuards cfg updatingRecords beforeRouteUpdate to from
             @ concat (map updateGuards updatingRecords),
           concat (map beforeEnter enteringRecords),
           extractComponentsGuards cfg enteringRecords beforeRouteEnter to from,
           beforeResolveGuards r ])"

fun run_phases ::
  "Config \<Rightarrow> Router \<Rightarrow> RouteLocation \<Rightarrow> RouteLocation \<Rightarrow> nat list list \<Rightarrow> router_error option"
  where
  "run_phases cfg r to from [] = None"
| "run_phases cfg r to from (guards # phases) =
     (case runGuardQueue cfg r to from guards of
        Some error \<Rightarrow> Some error
      | None \<Rightarrow> run_phases cfg r to from phases)"

text \<open>
  The result of a promise: resolved with a failure or with nothing, or rejected.
  \<^verbatim>\<open>navigate\<close> resolves with the failure of a cancelled navigation and rejects with every
  other error.
\<close>

datatype promise = Resolved "router_error option" | Rejected router_error | Thrown router_error

definition navigate :: "Config \<Rightarrow> Router \<Rightarrow> RouteLocation \<Rightarrow> RouteLocation \<Rightarrow> promise" where
  "navigate cfg r to from =
     (case run_phases cfg r to from (navigate_phases cfg r to from) of
        None \<Rightarrow> Resolved None
      | Some err \<Rightarrow>
          if isNavigationFailure err [NAVIGATION_CANCELLED] then Resolved (Some err)
          else Rejected err)"

text \<open>A synchronous throw inside a \<^verbatim>\<open>then\<close> callback rejects the promise.\<close>

fun in_then :: "promise \<Rightarrow> promise" where
  "in_then (Thrown err) = Rejected err"
| "in_then p = p"

definition raw_options :: "RouteLocationRaw \<Rightarrow> HistoryState option \<times> bool option \<times> bool" where
  "raw_options to =
     (case to of
        RawString s \<Rightarrow> (None, None, False)
      | RawObject obj \<Rightarrow> (raw_state obj, raw_force obj, raw_replace obj = Some True))"

text \<open>
  The two raw locations \<^verbatim>\<open>pushWithRedirect\<close> calls itself with. After a redirect record:
  \<^verbatim>\<open>assign(locationAsObject(shouldRedirect), {state, force, replace})\<close>, where
  \<^verbatim>\<open>shouldRedirect\<close> is an object. After a guard redirect:
  \<^verbatim>\<open>assign({replace}, locationAsObject(failure.to), {state, force})\<close>.
\<close>

definition record_redirect_target ::
  "RouteLocationRaw \<Rightarrow> RouteLocationRawObject \<Rightarrow> RouteLocationRaw" where
  "record_redirect_target to shouldRedirect =
     (let (data, force, replace') = raw_options to
      in RawObject (shouldRedirect\<lparr>
           raw_state := Some (assign_state data (raw_state shouldRedirect)),
           raw_force := force,
           raw_replace := Some replace' \<rparr>))"

definition guard_redirect_target ::
  "Config \<Rightarrow> Router \<Rightarrow> RouteLocationRaw \<Rightarrow> RouteLocationRaw \<Rightarrow> RouteLocationRaw" where
  "guard_redirect_target cfg r to failure_to =
     (let (data, force, replace') = raw_options to;
          obj = locationAsObject cfg r failure_to
      in RawObject (obj\<lparr>
           raw_replace := or_else (raw_replace obj) (Some replace'),
           raw_state :=
             (case failure_to of
                RawObject o' \<Rightarrow> Some (assign_state data (raw_state o'))
              | RawString s \<Rightarrow> data),
           raw_force := force \<rparr>))"

text \<open>
  \<^verbatim>\<open>pushWithRedirect\<close>. The promise chain of one navigation runs in sequence; the function
  returns the settled promise and the router after it, and \<open>None\<close> when the chain of
  redirects never ends.
\<close>

partial_function (option) pushWithRedirect ::
  "Config \<Rightarrow> RouteLocationRaw \<Rightarrow> RouteLocationBase option \<Rightarrow> Router \<Rightarrow> (promise \<times> Router) option"
  where
  "pushWithRedirect cfg to redirectedFrom' r0 =
     (case resolve cfg to r0 of
        (Inl err, r1) \<Rightarrow> Some (Thrown err, r1)
      | (Inr targetLocation, r1) \<Rightarrow>
     (let r = r1\<lparr> pendingLocation := targetLocation \<rparr>;
          from = currentRoute r;
          (data, force, replace') = raw_options to
      in case handleRedirectRecord cfg r targetLocation of
           Inl err \<Rightarrow> Some (Thrown err, r)
         | Inr (Some shouldRedirect) \<Rightarrow>
             pushWithRedirect cfg
               (record_redirect_target to shouldRedirect)
               (or_else redirectedFrom' (Some (RouteLocationBase.truncate targetLocation)))
               r
         | Inr None \<Rightarrow>
             (let toLocation = targetLocation\<lparr> redirectedFrom := redirectedFrom' \<rparr>;
                  r = r\<lparr> pendingLocation := toLocation \<rparr>;
                  isDuplicate = (force \<noteq> Some True
                                \<and> isSameRouteLocation (stringifyQuery cfg) from targetLocation);
                  r = (if isDuplicate then handleScroll cfg from from True False r else r);
                  navigated =
                    (if isDuplicate
                     then Resolved (Some (NavigationFailure duplicated from toLocation))
                     else navigate cfg r toLocation from);
                  (caught, r) =
                    (case navigated of
                       Rejected error \<Rightarrow>
                         if isNavigationFailure error []
                         then (if isNavigationFailure error [NAVIGATION_GUARD_REDIRECT]
                               then (Resolved (Some error), r)
                               else (Resolved (Some error), markAsReady (Some error) r))
                         else (Rejected error, triggerError error toLocation from r)
                     | _ \<Rightarrow> (navigated, r))
              in case caught of
                   Rejected error \<Rightarrow> Some (Rejected error, r)
                 | Thrown error \<Rightarrow> Some (Thrown error, r)
                 | Resolved None \<Rightarrow>
                     (let (failure, r) = finalizeNavigation cfg toLocation from True replace' r
                      in Some (Resolved failure, triggerAfterEach toLocation from failure r))
                 | Resolved (Some failure) \<Rightarrow>
                     (case failure of
                        NavigationRedirectError from' failure_to \<Rightarrow>
                          (case (if DEV cfg
                                 then (case resolve cfg failure_to r of
                                         (Inl err, r') \<Rightarrow> (Inl err, r')
                                       | (Inr resolved, r') \<Rightarrow>
                                           (Inr (isSameRouteLocation (stringifyQuery cfg) resolved
                                                   toLocation), r'))
                                 else (Inr False, r)) of
                             (Inl err, r) \<Rightarrow> Some (Rejected err, r)
                           | (Inr same, r) \<Rightarrow>
                          (let counted =
                                 (if DEV cfg \<and> same
                                  then map_option (\<lambda>rf. rf\<lparr> loc_count := loc_count rf + 1 \<rparr>)
                                         redirectedFrom'
                                  else redirectedFrom')
                           in if DEV cfg \<and> same
                                 \<and> (case counted of None \<Rightarrow> False | Some rf \<Rightarrow> loc_count rf > 30)
                              then Some (Rejected (Error ''Infinite redirect in navigation guard''), r)
                              else
                                Option.bind
                                  (pushWithRedirect cfg
                                     (guard_redirect_target cfg r to failure_to)
                                     (or_else counted (Some (RouteLocationBase.truncate toLocation)))
                                     r)
                                  (\<lambda>(p, r'). Some (in_then p, r'))))
                      | _ \<Rightarrow> Some (Resolved (Some failure),
                                   triggerAfterEach toLocation from (Some failure) r)))))"

definition push :: "Config \<Rightarrow> RouteLocationRaw \<Rightarrow> Router \<Rightarrow> (promise \<times> Router) option" where
  "push cfg to r = pushWithRedirect cfg to None r"

definition replace :: "Config \<Rightarrow> RouteLocationRaw \<Rightarrow> Router \<Rightarrow> (promise \<times> Router) option" where
  "replace cfg to r =
     push cfg (RawObject ((locationAsObject cfg r to)\<lparr> raw_replace := Some True \<rparr>)) r"

section \<open>Notions the statements about the router use\<close>

text \<open>
  The location object that \<^verbatim>\<open>pushWithRedirect\<close> works on after resolving \<open>to\<close> in the
  router \<open>r\<close> with the given \<open>redirectedFrom\<close>; whether a location's last matched record
  declares a redirect; whether a raw location asks to force the navigation.
\<close>

definition resolved_target ::
  "Config \<Rightarrow> RouteLocationRaw \<Rightarrow> RouteLocationBase option \<Rightarrow> Router \<Rightarrow> RouteLocation option" where
  "resolved_target cfg to rf r =
     (case resolve_location cfg to (currentRoute r) of
        Inl err \<Rightarrow> None
      | Inr l \<Rightarrow> Some (l\<lparr> loc_id := nextId r, loc_count := 0, redirectedFrom := rf \<rparr>))"

definition declares_redirect :: "RouteLocation \<Rightarrow> bool" where
  "declares_redirect l = (if loc_matched l = [] then False
                          else redirect (last (loc_matched l)) \<noteq> None)"

definition forced :: "RouteLocationRaw \<Rightarrow> bool" where
  "forced to = (case to of RawString s \<Rightarrow> False | RawObject obj \<Rightarrow> raw_force obj = Some True)"

text \<open>The first rejection among the guards of a list, run in order.\<close>

fun first_rejection ::
  "Config \<Rightarrow> RouteLocation \<Rightarrow> RouteLocation \<Rightarrow> nat list \<Rightarrow> router_error option" where
  "first_rejection cfg to from [] = None"
| "first_rejection cfg to from (guard # guards) =
     (case guardToPromiseFn cfg guard to from of
        Some error \<Rightarrow> Some error
      | None \<Rightarrow> first_rejection cfg to from guards)"

definition advances :: "NavigationGuardReturn \<Rightarrow> bool" where
  "advances x = (x = GuardVoid \<or> x = GuardTrue)"

section \<open>Two routers used as examples\<close>

text \<open>
  The path a raw location names, and a location for a path with one matched record.
\<close>

definition raw_path_of :: "RouteLocationRaw \<Rightarrow> string" where
  "raw_path_of to =
     (case to of
        RawString s \<Rightarrow> s
      | RawObject obj \<Rightarrow> (case raw_path obj of Some p \<Rightarrow> p | None \<Rightarrow> []))"

definition location_at :: "string \<Rightarrow> RouteRecordNormalized \<Rightarrow> RouteLocation" where
  "location_at p record =
     \<lparr> loc_id = 0, loc_path = p, loc_fullPath = p, loc_name = None, loc_params = [],
       loc_query = [], loc_hash = [], loc_matched = [record], loc_count = 0,
       redirectedFrom = None \<rparr>"

definition parseURL_path :: "string \<Rightarrow> string \<Rightarrow> RouteLocationRawObject" where
  "parseURL_path s current =
     \<lparr> raw_path = Some s, raw_name = None, raw_params = None, raw_query = None,
       raw_hash = None, raw_state = None, raw_force = None, raw_replace = None \<rparr>"

text \<open>
  The records \<^verbatim>\<open>{path: '/a', redirect: '/b'}\<close> and \<^verbatim>\<open>{path: '/b', redirect: '/a'}\<close>, in a
  development build.
\<close>

definition record_a_to_b :: RouteRecordNormalized where
  "record_a_to_b =
     \<lparr> ref = 1, aliasOf = None, record_path = ''/a'', redirect = Some (RedirectString ''/b''),
       beforeEnter = [], leaveGuards = [], updateGuards = [] \<rparr>"

definition record_b_to_a :: RouteRecordNormalized where
  "record_b_to_a =
     \<lparr> ref = 2, aliasOf = None, record_path = ''/b'', redirect = Some (RedirectString ''/a''),
       beforeEnter = [], leaveGuards = [], updateGuards = [] \<rparr>"

definition redirect_loop_config :: Config where
  "redirect_loop_config =
     \<lparr> DEV = True, isBrowser = False, has_scrollBehavior = False,
       resolve_location = (\<lambda>to current.
         if raw_path_of to = ''/a'' then Inr (location_at ''/a'' record_a_to_b)
         else Inr (location_at ''/b'' record_b_to_a)),
       parseURL = parseURL_path,
       stringifyQuery = (\<lambda>q. []),
       guard_return = (\<lambda>g to from. GuardVoid),
       redirect_function = (\<lambda>f to. RawString ''/a''),
       extractComponentsGuards = (\<lambda>records kind to from. []) \<rparr>"

text \<open>
  A record without a redirect, and a development build in which every raw location
  resolves to \<^verbatim>\<open>/a\<close> on that record. What guard 7 returns is the parameter \<open>ret\<close>; the
  other guards return nothing.
\<close>

definition record_plain :: RouteRecordNormalized where
  "record_plain =
     \<lparr> ref = 1, aliasOf = None, record_path = ''/a'', redirect = None,
       beforeEnter = [], leaveGuards = [], updateGuards = [] \<rparr>"

definition guard7_config :: "NavigationGuardReturn \<Rightarrow> Config" where
  "guard7_config ret =
     \<lparr> DEV = True, isBrowser = False, has_scrollBehavior = False,
       resolve_location = (\<lambda>to current. Inr (location_at ''/a'' record_plain)),
       parseURL = parseURL_path,
       stringifyQuery = (\<lambda>q. []),
       guard_return = (\<lambda>g to from. if g = 7 then ret else GuardVoid),
       redirect_function = (\<lambda>f to. RawString ''/a''),
       extractComponentsGuards = (\<lambda>records kind to from. []) \<rparr>"

text \<open>A new router with the global before-guard 7 and the after-guard 9.\<close>

definition router_7_9 :: Router where
  "router_7_9 = createRouter\<lparr> beforeGuards := [7], afterGuards := [9] \<rparr>"

text \<open>The location object number \<open>n\<close> for \<^verbatim>\<open>/a\<close>, reached through \<open>rf\<close>.\<close>

definition location_a :: "nat \<Rightarrow> RouteLocationBase option \<Rightarrow> RouteLocation" where
  "location_a n rf =
     (location_at ''/a'' record_plain)\<lparr> loc_id := n, loc_count := 0, redirectedFrom := rf \<rparr>"

text \<open>The location a chain of redirects started from, with its counter at \<open>c\<close>.\<close>

definition chain_start :: "nat \<Rightarrow> RouteLocationBase" where
  "chain_start c = (RouteLocationBase.truncate (location_a 1 None))\<lparr> loc_count := c \<rparr>"

text \<open>The raw location that follows a guard's redirect to \<^verbatim>\<open>/a\<close>.\<close>

definition redirect_to_a :: RouteLocationRaw where
  "redirect_to_a =
     RawObject ((parseURL_path ''/a'' [])\<lparr> raw_replace := Some False \<rparr>)"

section \<open>The regular expression of a list of tokens\<close>













section \<open>Theorems\<close>

lemma splice_start_in_range:
  "0 \<le> p \<Longrightarrow> p \<le> int n \<Longrightarrow> splice_start p n = nat p"
  by (simp add: splice_start_def)

lemma setLocation_in_range:
  assumes "history_ok h"
  shows "queue (setLocation to h) = take (nat (position h) + 1) (queue h) @ [to]"
    and "position (setLocation to h) = position h + 1"
proof -
  from assms have r: "0 \<le> position h + 1" "position h + 1 \<le> int (length (queue h))"
    by (simp_all add: history_ok_def)
  have n: "nat (position h + 1) = nat (position h) + 1"
    using assms by (simp add: history_ok_def nat_add_distrib)
  show "queue (setLocation to h) = take (nat (position h) + 1) (queue h) @ [to]"
    using r n by (simp add: setLocation_def splice_def splice_start_in_range Let_def)
  show "position (setLocation to h) = position h + 1"
    by (simp add: setLocation_def Let_def)
qed

lemma splice_one_in_range:
  "0 \<le> p \<Longrightarrow> p < int (length xs) \<Longrightarrow>
   splice xs p (Some 1) = take (nat p) xs @ drop (nat p + 1) xs"
  by (simp add: splice_def splice_start_in_range Let_def min_def)

lemma splice_rest_in_range:
  "0 \<le> p \<Longrightarrow> p \<le> int (length xs) \<Longrightarrow> splice xs p None = take (nat p) xs"
  by (simp add: splice_def splice_start_in_range Let_def)

lemma replace_in_range:
  assumes "history_ok h"
  shows "queue (replace_history to h) = take (nat (position h)) (queue h) @ [to]"
    and "position (replace_history to h) = position h"
proof -
  let ?n = "length (queue h)"
  let ?p = "position h"
  let ?q1 = "take (nat ?p) (queue h) @ drop (nat ?p + 1) (queue h)"
  from assms have r: "0 \<le> ?p" "?p < int ?n" by (simp_all add: history_ok_def)
  have s: "splice (queue h) ?p (Some 1) = ?q1"
    using r by (rule splice_one_in_range)
  have len: "?p \<le> int (length ?q1)" using r by simp
  have t: "take (nat ?p) ?q1 = take (nat ?p) (queue h)" using r by simp
  have e: "int (length ?q1) = ?p \<Longrightarrow> ?q1 = take (nat ?p) (queue h)"
    using r by simp
  show "position (replace_history to h) = ?p"
    by (simp add: replace_history_def setLocation_def Let_def)
  have "queue (replace_history to h)
        = (if ?p \<noteq> int (length ?q1) then splice ?q1 ?p None else ?q1) @ [to]"
    by (simp add: replace_history_def setLocation_def Let_def s)
  also have "(if ?p \<noteq> int (length ?q1) then splice ?q1 ?p None else ?q1)
             = take (nat ?p) (queue h)"
  proof (cases "?p = int (length ?q1)")
    case True
    then show ?thesis using e by simp
  next
    case False
    then show ?thesis using splice_rest_in_range [OF r(1) len] t by simp
  qed
  finally show "queue (replace_history to h) = take (nat ?p) (queue h) @ [to]" .
qed

lemma go_clamps:
  assumes "history_ok h"
  shows "0 \<le> position (fst (go_history d t h))"
    and "position (fst (go_history d t h)) \<le> int (length (queue h)) - 1"
    and "queue (fst (go_history d t h)) = queue h"
    and "position (fst (go_history d t h)) = max 0 (min (position h + d) (int (length (queue h)) - 1))"
  using assms by (auto simp add: go_history_def Let_def history_ok_def)

lemma location_last:
  "position h = int (length xs) \<Longrightarrow> queue h = xs @ [to] \<Longrightarrow> location h = Some to"
  by (simp add: location_def)

lemma history_ok_preserved:
  assumes "history_ok h"
  shows "history_ok (push_history to h)"
    and "history_ok (replace_history to h)"
    and "history_ok (fst (go_history d t h))"
    and "history_ok (destroy h)"
    and "history_ok createMemoryHistory"
proof -
  show "history_ok (push_history to h)"
    using setLocation_in_range [OF assms, of to] assms
    by (simp add: history_ok_def push_history_def min_def)
  show "history_ok (replace_history to h)"
    using replace_in_range [OF assms, of to] assms
    by (simp add: history_ok_def min_def)
  show "history_ok (fst (go_history d t h))"
    using go_clamps [OF assms, of d t] by (simp add: history_ok_def)
  show "history_ok (destroy h)" by (simp add: history_ok_def destroy_def)
  show "history_ok createMemoryHistory" by (simp add: history_ok_def createMemoryHistory_def)
qed

lemma scenario_a_b_back_eq:
  "scenario_a_b_back = \<lparr> listeners = [], queue = [START, ''/a'', ''/b''], position = 1 \<rparr>"
  by (simp add: scenario_a_b_back_def go_history_def push_history_def setLocation_def
      createMemoryHistory_def Let_def)

lemma scenario_push_c:
  "push_history ''/c'' scenario_a_b_back
   = \<lparr> listeners = [], queue = [START, ''/a'', ''/c''], position = 2 \<rparr>"
  by (simp add: scenario_a_b_back_eq push_history_def setLocation_def Let_def splice_def
      splice_start_def)

text \<open>
  Claim C7. With the cursor inside the queue, \<^verbatim>\<open>push\<close> keeps the entries up to the cursor,
  drops the forward entries and appends the new location, which becomes the current one;
  \<^verbatim>\<open>replace\<close> drops the current entry (and the forward ones) and puts the new location in
  its place; \<^verbatim>\<open>go(delta)\<close> moves the cursor to \<open>position + delta\<close> clamped into
  \<open>[0, queue.length - 1]\<close> and leaves the queue alone. After \<^verbatim>\<open>push('/a')\<close>,
  \<^verbatim>\<open>push('/b')\<close>, \<^verbatim>\<open>go(-1)\<close> the location is \<^verbatim>\<open>/a\<close>; \<^verbatim>\<open>push('/c')\<close> then discards
  \<^verbatim>\<open>/b\<close>, and \<^verbatim>\<open>go(1)\<close> stays on \<^verbatim>\<open>/c\<close>.
\<close>

theorem memory_history_push_replace_go:
  assumes "history_ok h"
  shows "(queue (push_history to h) = take (nat (position h) + 1) (queue h) @ [to]
          \<and> position (push_history to h) = position h + 1
          \<and> location (push_history to h) = Some to)
       \<and> (queue (replace_history to h) = take (nat (position h)) (queue h) @ [to]
          \<and> position (replace_history to h) = position h
          \<and> location (replace_history to h) = Some to)
       \<and> (position (fst (go_history d t h))
            = max 0 (min (position h + d) (int (length (queue h)) - 1))
          \<and> 0 \<le> position (fst (go_history d t h))
          \<and> position (fst (go_history d t h)) \<le> int (length (queue h)) - 1
          \<and> queue (fst (go_history d t h)) = queue h)
       \<and> (location scenario_a_b_back = Some ''/a''
          \<and> ''/b'' \<notin> set (queue (push_history ''/c'' scenario_a_b_back))
          \<and> location (fst (go_history 1 True (push_history ''/c'' scenario_a_b_back)))
              = Some ''/c'')"
proof -
  have r: "0 \<le> position h" "position h < int (length (queue h))"
    using assms by (simp_all add: history_ok_def)
  have push: "queue (push_history to h) = take (nat (position h) + 1) (queue h) @ [to]"
    "position (push_history to h) = position h + 1"
    using setLocation_in_range [OF assms, of to] by (simp_all add: push_history_def)
  have "int (length (take (nat (position h) + 1) (queue h))) = position h + 1"
    using r by auto
  then have lpush: "location (push_history to h) = Some to"
    by (intro location_last [where xs = "take (nat (position h) + 1) (queue h)"])
      (simp_all add: push)
  have rep: "queue (replace_history to h) = take (nat (position h)) (queue h) @ [to]"
    "position (replace_history to h) = position h"
    using replace_in_range [OF assms, of to] by simp_all
  have "int (length (take (nat (position h)) (queue h))) = position h"
    using r by auto
  then have lrep: "location (replace_history to h) = Some to"
    by (intro location_last [where xs = "take (nat (position h)) (queue h)"])
      (simp_all add: rep)
  have sc1: "location scenario_a_b_back = Some ''/a''"
    by (simp add: scenario_a_b_back_eq location_def)
  have sc2: "''/b'' \<notin> set (queue (push_history ''/c'' scenario_a_b_back))"
    by (simp add: scenario_push_c START_def)
  have sc3: "location (fst (go_history 1 True (push_history ''/c'' scenario_a_b_back)))
              = Some ''/c''"
    by (simp add: scenario_push_c go_history_def Let_def location_def)
  show ?thesis
    using push lpush rep lrep go_clamps [OF assms, of d t] sc1 sc2 sc3 by simp
qed

theorem memory_history_push_replace_go_witness:
  "history_ok scenario_a_b_back
   \<and> queue (push_history ''/c'' scenario_a_b_back) = [START, ''/a'', ''/c'']
   \<and> queue (replace_history ''/c'' scenario_a_b_back) = [START, ''/c'']
   \<and> position (fst (go_history 5 True scenario_a_b_back)) = 2
   \<and> position (fst (go_history (- 5) True scenario_a_b_back)) = 0"
proof -
  have ok: "history_ok scenario_a_b_back"
    by (simp add: scenario_a_b_back_eq history_ok_def)
  show ?thesis
    using ok memory_history_push_replace_go [OF ok, of "''/c''" 5 True]
      memory_history_push_replace_go [OF ok, of "''/c''" "- 5" True]
    by (simp add: scenario_a_b_back_eq)
qed

text \<open>
  Claim C10. \<^verbatim>\<open>isSameRouteRecord(a, b)\<close> holds exactly when \<^verbatim>\<open>a.aliasOf || a\<close> and
  \<^verbatim>\<open>b.aliasOf || b\<close> are the same record: two original records are the same route record
  exactly when they are one record, an alias and an original exactly when the alias
  points to that original, two aliases exactly when they point to one record. The
  relation is reflexive, symmetric and transitive.
\<close>

theorem isSameRouteRecord_alias:
  "(isSameRouteRecord a b
      \<longleftrightarrow> (case aliasOf a of None \<Rightarrow> ref a | Some r \<Rightarrow> r)
           = (case aliasOf b of None \<Rightarrow> ref b | Some r \<Rightarrow> r))
   \<and> (aliasOf a = None \<and> aliasOf b = None \<longrightarrow> (isSameRouteRecord a b \<longleftrightarrow> ref a = ref b))
   \<and> (aliasOf a = Some x \<and> aliasOf b = None \<longrightarrow> (isSameRouteRecord a b \<longleftrightarrow> x = ref b))
   \<and> (aliasOf a = None \<and> aliasOf b = Some y \<longrightarrow> (isSameRouteRecord a b \<longleftrightarrow> ref a = y))
   \<and> (aliasOf a = Some x \<and> aliasOf b = Some y \<longrightarrow> (isSameRouteRecord a b \<longleftrightarrow> x = y))
   \<and> isSameRouteRecord a a
   \<and> (isSameRouteRecord a b \<longleftrightarrow> isSameRouteRecord b a)
   \<and> (isSameRouteRecord a b \<and> isSameRouteRecord b c \<longrightarrow> isSameRouteRecord a c)
   \<and> (aliasOf a = Some (ref b) \<and> aliasOf b = None \<longrightarrow> isSameRouteRecord a b)"
  by (auto simp: isSameRouteRecord_def aliasOf_or_self_def)

theorem isSameRouteRecord_alias_witness:
  "isSameRouteRecord \<lparr> ref = 2, aliasOf = Some 1 \<rparr> \<lparr> ref = 1, aliasOf = None \<rparr>
   \<and> \<not> isSameRouteRecord \<lparr> ref = 1, aliasOf = None \<rparr> \<lparr> ref = 3, aliasOf = None \<rparr>
   \<and> \<not> isSameRouteRecord \<lparr> ref = 2, aliasOf = Some 1 \<rparr> \<lparr> ref = 3, aliasOf = None \<rparr>
   \<and> isSameRouteRecord \<lparr> ref = 2, aliasOf = Some 1 \<rparr> \<lparr> ref = 4, aliasOf = Some 1 \<rparr>
   \<and> \<not> isSameRouteRecord \<lparr> ref = 2, aliasOf = Some 1 \<rparr> \<lparr> ref = 5, aliasOf = Some 3 \<rparr>"
  using isSameRouteRecord_alias [of "\<lparr> ref = 2, aliasOf = Some 1 \<rparr>"
      "\<lparr> ref = 1, aliasOf = None \<rparr>" 1 0 "\<lparr> ref = 1, aliasOf = None \<rparr>"]
    isSameRouteRecord_alias [of "\<lparr> ref = 1, aliasOf = None \<rparr>"
      "\<lparr> ref = 3, aliasOf = None \<rparr>" 0 0 "\<lparr> ref = 1, aliasOf = None \<rparr>"]
    isSameRouteRecord_alias [of "\<lparr> ref = 2, aliasOf = Some 1 \<rparr>"
      "\<lparr> ref = 3, aliasOf = None \<rparr>" 1 0 "\<lparr> ref = 1, aliasOf = None \<rparr>"]
    isSameRouteRecord_alias [of "\<lparr> ref = 2, aliasOf = Some 1 \<rparr>"
      "\<lparr> ref = 4, aliasOf = Some 1 \<rparr>" 1 1 "\<lparr> ref = 1, aliasOf = None \<rparr>"]
    isSameRouteRecord_alias [of "\<lparr> ref = 2, aliasOf = Some 1 \<rparr>"
      "\<lparr> ref = 5, aliasOf = Some 3 \<rparr>" 1 3 "\<lparr> ref = 1, aliasOf = None \<rparr>"]
  by simp

lemma compareScoreArray_loop_differ:
  "length p = i + k \<Longrightarrow> x \<noteq> y \<Longrightarrow>
   compareScoreArray_loop i (p @ x # a') (p @ y # b') = Some (y - x)"
proof (induction k arbitrary: i)
  case 0
  then show ?case by (subst compareScoreArray_loop.simps) (simp add: nth_append)
next
  case (Suc k)
  then show ?case by (subst compareScoreArray_loop.simps) (simp add: nth_append)
qed

lemma compareScoreArray_loop_prefix:
  "length a = i + k \<Longrightarrow> compareScoreArray_loop i a (a @ c) = None"
proof (induction k arbitrary: i)
  case 0
  then show ?case by (subst compareScoreArray_loop.simps) simp
next
  case (Suc k)
  then show ?case by (subst compareScoreArray_loop.simps) (simp add: nth_append)
qed

lemma compareScoreArray_loop_prefix':
  "length a = i + k \<Longrightarrow> compareScoreArray_loop i (a @ c) a = None"
proof (induction k arbitrary: i)
  case 0
  then show ?case by (subst compareScoreArray_loop.simps) simp
next
  case (Suc k)
  then show ?case by (subst compareScoreArray_loop.simps) (simp add: nth_append)
qed

lemma compareScoreArray_same: "compareScoreArray a a = 0"
  using compareScoreArray_loop_prefix [of a 0 "length a" "[]"]
  by (simp add: compareScoreArray_def)

lemma compareScoreArray_differ:
  "x \<noteq> y \<Longrightarrow> compareScoreArray (p @ x # a') (p @ y # b') = y - x"
  using compareScoreArray_loop_differ [of p 0 "length p" x y a' b']
  by (simp add: compareScoreArray_def)

lemma compareScoreArray_shorter:
  "c \<noteq> [] \<Longrightarrow>
   compareScoreArray a (a @ c) = (if a = [PathScore_Static + PathScore_Segment] then - 1 else 1)"
  using compareScoreArray_loop_prefix [of a 0 "length a" c]
  by (cases a) (auto simp add: compareScoreArray_def)

lemma compareScoreArray_longer:
  "c \<noteq> [] \<Longrightarrow>
   compareScoreArray (a @ c) a = (if a = [PathScore_Static + PathScore_Segment] then 1 else - 1)"
  using compareScoreArray_loop_prefix' [of a 0 "length a" c]
  by (cases a) (auto simp add: compareScoreArray_def)

text \<open>Two lists either split at a first difference or one is a prefix of the other.\<close>

lemma first_difference:
  "(\<exists>p x y a' b'. a = p @ x # a' \<and> b = p @ y # b' \<and> x \<noteq> y)
   \<or> (\<exists>c. b = a @ c) \<or> (\<exists>c. a = b @ c)"
proof (induction a arbitrary: b)
  case Nil
  then show ?case by simp
next
  case (Cons x a)
  show ?case
  proof (cases b)
    case Nil
    then show ?thesis by simp
  next
    case (Cons y b')
    show ?thesis
    proof (cases "x = y")
      case False
      then have "x # a = [] @ x # a \<and> b = [] @ y # b' \<and> x \<noteq> y" using Cons by simp
      then show ?thesis by blast
    next
      case True
      from Cons.IH [of b'] show ?thesis
      proof (elim disjE exE conjE)
        fix p u v a' b''
        assume "a = p @ u # a'" "b' = p @ v # b''" "u \<noteq> v"
        then have "x # a = (x # p) @ u # a' \<and> b = (x # p) @ v # b'' \<and> u \<noteq> v"
          using Cons True by simp
        then show ?thesis by blast
      next
        fix c assume "b' = a @ c"
        then show ?thesis using Cons True by simp
      next
        fix c assume "a = b' @ c"
        then show ?thesis using Cons True by simp
      qed
    qed
  qed
qed

lemma compareScoreArray_zero_iff: "compareScoreArray a b = 0 \<longleftrightarrow> a = b"
proof
  assume z: "compareScoreArray a b = 0"
  from first_difference [of a b] show "a = b"
  proof (elim disjE exE conjE)
    fix p x y a' b'
    assume "a = p @ x # a'" "b = p @ y # b'" "x \<noteq> y"
    then show ?thesis using z compareScoreArray_differ [of x y p a' b'] by simp
  next
    fix c assume "b = a @ c"
    then show ?thesis using z compareScoreArray_shorter [of c a]
      by (cases "c = []") (auto split: if_splits)
  next
    fix c assume "a = b @ c"
    then show ?thesis using z compareScoreArray_longer [of c b]
      by (cases "c = []") (auto split: if_splits)
  qed
next
  assume "a = b"
  then show "compareScoreArray a b = 0" by (simp add: compareScoreArray_same)
qed

lemma comparePathParserScore_loop_differ:
  "length p = i + k \<Longrightarrow> x \<noteq> y \<Longrightarrow>
   comparePathParserScore_loop i (p @ x # a') (p @ y # b') = Some (compareScoreArray x y)"
proof (induction k arbitrary: i)
  case 0
  then show ?case
    by (subst comparePathParserScore_loop.simps)
      (simp add: nth_append compareScoreArray_zero_iff)
next
  case (Suc k)
  then show ?case
    by (subst comparePathParserScore_loop.simps)
      (simp add: nth_append compareScoreArray_same)
qed

lemma comparePathParserScore_loop_prefix:
  "length a = i + k \<Longrightarrow> comparePathParserScore_loop i a (a @ c) = None"
proof (induction k arbitrary: i)
  case 0
  then show ?case by (subst comparePathParserScore_loop.simps) simp
next
  case (Suc k)
  then show ?case
    by (subst comparePathParserScore_loop.simps) (simp add: nth_append compareScoreArray_same)
qed

lemma comparePathParserScore_loop_prefix':
  "length a = i + k \<Longrightarrow> comparePathParserScore_loop i (a @ c) a = None"
proof (induction k arbitrary: i)
  case 0
  then show ?case by (subst comparePathParserScore_loop.simps) simp
next
  case (Suc k)
  then show ?case
    by (subst comparePathParserScore_loop.simps) (simp add: nth_append compareScoreArray_same)
qed

lemma comparePathParserScore_differ:
  "score a = p @ x # a' \<Longrightarrow> score b = p @ y # b' \<Longrightarrow> x \<noteq> y \<Longrightarrow>
   comparePathParserScore a b = compareScoreArray x y"
  using comparePathParserScore_loop_differ [of p 0 "length p" x y a' b']
  by (simp add: comparePathParserScore_def)

lemma comparePathParserScore_shorter:
  "score b = score a @ c \<Longrightarrow> c \<noteq> [] \<Longrightarrow>
   comparePathParserScore a b =
     (if length c = 1 \<and> isLastScoreNegative (score a) then 1
      else if length c = 1 \<and> isLastScoreNegative (score b) then - 1
      else of_nat (length c))"
  using comparePathParserScore_loop_prefix [of "score a" 0 "length (score a)" c]
  by (simp add: comparePathParserScore_def Let_def)

lemma comparePathParserScore_longer:
  "score a = score b @ c \<Longrightarrow> c \<noteq> [] \<Longrightarrow>
   comparePathParserScore a b =
     (if length c = 1 \<and> isLastScoreNegative (score a) then 1
      else if length c = 1 \<and> isLastScoreNegative (score b) then - 1
      else - of_nat (length c))"
  using comparePathParserScore_loop_prefix' [of "score b" 0 "length (score b)" c]
  by (simp add: comparePathParserScore_def Let_def)

lemma comparePathParserScore_same:
  "score a = score b \<Longrightarrow> comparePathParserScore a b = 0"
  using comparePathParserScore_loop_prefix [of "score a" 0 "length (score a)" "[]"]
  by (simp add: comparePathParserScore_def Let_def)

text \<open>
  Claim C2, as amended. \<^verbatim>\<open>compareScoreArray\<close> returns the first non-zero difference
  \<open>b[i] - a[i]\<close>, so the higher score sorts first; when one list is a proper prefix of the
  other, whatever the difference of the lengths, the shorter list sorts first exactly when
  it is the single entry \<open>Static + Segment\<close>, otherwise the longer one does; the result is
  0 only for equal lists. \<^verbatim>\<open>comparePathParserScore\<close> returns the comparison of the first pair
  of segments that differ; when one score is a proper prefix of the other and the lengths
  differ by exactly one, a list whose last entry is negative sorts last (the first argument
  is looked at first); otherwise the longer list sorts first.
\<close>

theorem comparePathParserScore_rules:
  "(x \<noteq> y \<longrightarrow> compareScoreArray (p @ x # a') (p @ y # b') = y - x)
   \<and> (c \<noteq> [] \<longrightarrow>
        compareScoreArray a (a @ c)
          = (if a = [PathScore_Static + PathScore_Segment] then - 1 else 1)
        \<and> compareScoreArray (a @ c) a
          = (if a = [PathScore_Static + PathScore_Segment] then 1 else - 1))
   \<and> (compareScoreArray a b = 0 \<longleftrightarrow> a = b)
   \<and> (score A = ps @ xs # as' \<and> score B = ps @ ys # bs' \<and> xs \<noteq> ys \<longrightarrow>
        comparePathParserScore A B = compareScoreArray xs ys)
   \<and> (score B = score A @ cs \<and> cs \<noteq> [] \<longrightarrow>
        comparePathParserScore A B
          = (if length cs = 1 \<and> isLastScoreNegative (score A) then 1
             else if length cs = 1 \<and> isLastScoreNegative (score B) then - 1
             else of_nat (length cs))
        \<and> comparePathParserScore B A
          = (if length cs = 1 \<and> isLastScoreNegative (score B) then 1
             else if length cs = 1 \<and> isLastScoreNegative (score A) then - 1
             else - of_nat (length cs)))
   \<and> (score A = score B \<longrightarrow> comparePathParserScore A B = 0)"
  using compareScoreArray_differ [of x y p a' b'] compareScoreArray_shorter [of c a]
    compareScoreArray_longer [of c a] compareScoreArray_zero_iff [of a b]
    comparePathParserScore_differ [of A ps xs as' B ys bs']
    comparePathParserScore_shorter [of B A cs] comparePathParserScore_longer [of B A cs]
    comparePathParserScore_same [of A B]
  by blast

theorem comparePathParserScore_rules_witness:
  "(80::score) \<noteq> 60 \<and> [60::score, 60] \<noteq> []
   \<and> compareScoreArray [80, 80] [80, 60] = - 20
   \<and> compareScoreArray [80] [80, 60, 60] = - 1
   \<and> compareScoreArray [60] [60, 60, 60] = 1
   \<and> comparePathParserScore
         \<lparr> pattern = [], re = [], ignoreCase = True, score = [[80], [60]], keys = [],
           segments = [] \<rparr>
         \<lparr> pattern = [], re = [], ignoreCase = True, score = [[80], [60], [- 8]], keys = [],
           segments = [] \<rparr> = - 1"
proof -
  let ?A = "\<lparr> pattern = [], re = [], ignoreCase = True, score = [[80], [60 :: score]],
              keys = [], segments = [] \<rparr>"
  let ?B = "\<lparr> pattern = [], re = [], ignoreCase = True, score = [[80], [60], [- 8 :: score]],
              keys = [], segments = [] \<rparr>"
  have neg: "isLastScoreNegative [[80], [60], [- 8]]" "\<not> isLastScoreNegative [[80], [60]]"
    by (simp_all add: isLastScoreNegative_def)
  show ?thesis
    using comparePathParserScore_rules [where x = 80 and y = 60 and p = "[80]" and a' = "[]"
        and b' = "[]" and c = "[60, 60]" and a = "[80]" and b = "[]" and A = ?A and B = ?B
        and cs = "[[- 8]]" and ps = "[]" and xs = "[]" and ys = "[]" and as' = "[]"
        and bs' = "[]"]
      comparePathParserScore_rules [where x = 80 and y = 60 and p = "[80]" and a' = "[]"
        and b' = "[]" and c = "[60, 60]" and a = "[60]" and b = "[]" and A = ?A and B = ?B
        and cs = "[[- 8]]" and ps = "[]" and xs = "[]" and ys = "[]" and as' = "[]"
        and bs' = "[]"]
      neg
    by (simp add: PathScore_defs)
qed

text \<open>
  Counterexample to claim C2 as stated. The scores of \<^verbatim>\<open>/a\<close> and \<^verbatim>\<open>/a:b-:c\<close> share
  their first entry and their lengths differ by three, yet the shorter list sorts first.
  The scores of \<^verbatim>\<open>/a/:b\<close> and \<^verbatim>\<open>/a/:b/:c(.*)*\<close> differ by one trailing segment, the
  shorter list does not end in a bare static entry, and it sorts first all the same,
  because the last entry of the longer one is negative.
\<close>

theorem comparePathParserScore_counterexample:
  "map_option score (compile_path no_custom_engine ''/a'' BASE_PATH_PARSER_OPTIONS)
     = Some [[80]]
   \<and> map_option score (compile_path no_custom_engine ''/a:b-:c'' BASE_PATH_PARSER_OPTIONS)
     = Some [[80, 60, 80, 60]]
   \<and> rank no_custom_engine ''/a'' ''/a:b-:c'' = Some (- 1)
   \<and> map_option score (compile_path no_custom_engine ''/a/:b'' BASE_PATH_PARSER_OPTIONS)
     = Some [[80], [60]]
   \<and> map_option score (compile_path no_custom_engine ''/a/:b/:c(.*)*'' BASE_PATH_PARSER_OPTIONS)
     = Some [[80], [60], [- 8]]
   \<and> rank no_custom_engine ''/a/:b'' ''/a/:b/:c(.*)*'' = Some (- 1)"
  by code_simp

text \<open>
  Claim C3. With the default options, \<^verbatim>\<open>/users/new\<close> sorts strictly before
  \<^verbatim>\<open>/users/:id\<close>, both match \<^verbatim>\<open>/users/new\<close>, and the table built from the two records,
  in either order, resolves \<^verbatim>\<open>/users/new\<close> to the static record. Likewise \<^verbatim>\<open>/:a-:b\<close>
  sorts strictly before \<^verbatim>\<open>/:a\<close>, both match \<^verbatim>\<open>/x-y\<close>, and the table resolves
  \<^verbatim>\<open>/x-y\<close> to \<^verbatim>\<open>/:a-:b\<close>.
\<close>

theorem static_and_subsegment_selected:
  "rank no_custom_engine ''/users/new'' ''/users/:id'' = Some (- 20)
   \<and> rank no_custom_engine ''/users/:id'' ''/users/new'' = Some 20
   \<and> matches no_custom_engine ''/users/:id'' ''/users/new''
   \<and> matches no_custom_engine ''/users/new'' ''/users/new''
   \<and> resolve_path no_custom_engine
         (addRoutes no_custom_engine [''/users/:id'', ''/users/new''] []) ''/users/new''
       = Some ''/users/new''
   \<and> resolve_path no_custom_engine
         (addRoutes no_custom_engine [''/users/new'', ''/users/:id''] []) ''/users/new''
       = Some ''/users/new''
   \<and> rank no_custom_engine ''/:a-:b'' ''/:a'' = Some (- 1)
   \<and> rank no_custom_engine ''/:a'' ''/:a-:b'' = Some 1
   \<and> matches no_custom_engine ''/:a'' ''/x-y''
   \<and> matches no_custom_engine ''/:a-:b'' ''/x-y''
   \<and> resolve_path no_custom_engine
         (addRoutes no_custom_engine [''/:a'', ''/:a-:b''] []) ''/x-y'' = Some ''/:a-:b''
   \<and> resolve_path no_custom_engine
         (addRoutes no_custom_engine [''/:a-:b'', ''/:a''] []) ''/x-y'' = Some ''/:a-:b''"
  by code_simp











lemma repeatable_early_snoc:
  "repeatable_early seg \<Longrightarrow> (repeatable_token x \<Longrightarrow> length seg \<le> 1) \<Longrightarrow>
   repeatable_early (seg @ [x])"
  by (cases "repeatable_token x") (auto simp: repeatable_early_def list_all_iff dest: in_set_dropD)

lemma consumeBuffer_early:
  assumes "tokenizer_early t" and "consumeBuffer t = Inr t'"
  shows "tokenizer_early t'"
proof (cases "buffer t = []")
  case True
  with assms show ?thesis by (simp add: consumeBuffer_def)
next
  case False
  show ?thesis
  proof (cases "segment t")
    case None
    with assms False show ?thesis
      by (auto simp: consumeBuffer_def split: if_splits)
  next
    case (Some seg)
    have seg: "repeatable_early seg" and toks: "list_all repeatable_early (tokens t)"
      using assms(1) Some by (simp_all add: tokenizer_early_def)
    show ?thesis
    proof (cases "state t = Static")
      case True
      then have "t' = t\<lparr> segment := Some (seg @ [TokenStatic (buffer t)]), buffer := [] \<rparr>"
        using assms(2) False Some by (simp add: consumeBuffer_def)
      moreover have "repeatable_early (seg @ [TokenStatic (buffer t)])"
        using seg by (intro repeatable_early_snoc) auto
      ultimately show ?thesis using toks by (simp add: tokenizer_early_def)
    next
      case notStatic: False
      let ?tok = "TokenParam (buffer t) (customRe t)
                    (char t = Some CHR ''*'' \<or> char t = Some CHR ''?'')
                    (char t = Some CHR ''*'' \<or> char t = Some CHR ''+'')"
      from assms(2) False Some notStatic
      have ok: "\<not> (length seg > 1 \<and> (char t = Some CHR ''*'' \<or> char t = Some CHR ''+''))"
        and t': "t' = t\<lparr> segment := Some (seg @ [?tok]), buffer := [] \<rparr>"
        by (auto simp: consumeBuffer_def split: if_splits)
      have "repeatable_early (seg @ [?tok])"
        using seg ok by (intro repeatable_early_snoc) auto
      then show ?thesis using toks t' by (simp add: tokenizer_early_def)
    qed
  qed
qed

lemma consumeBuffer_early':
  "consumeBuffer t = Inr t' \<Longrightarrow> tokenizer_early t \<Longrightarrow> tokenizer_early t'"
  using consumeBuffer_early by blast

lemma finalizeSegment_early: "tokenizer_early t \<Longrightarrow> tokenizer_early (finalizeSegment t)"
  by (auto simp: tokenizer_early_def finalizeSegment_def repeatable_early_def
      split: option.splits)

lemma tokenizer_early_update [simp]:
  "tokenizer_early (t\<lparr> state := s \<rparr>) = tokenizer_early t"
  "tokenizer_early (t\<lparr> previousState := s \<rparr>) = tokenizer_early t"
  "tokenizer_early (t\<lparr> index := n \<rparr>) = tokenizer_early t"
  "tokenizer_early (t\<lparr> char := c \<rparr>) = tokenizer_early t"
  "tokenizer_early (t\<lparr> buffer := b \<rparr>) = tokenizer_early t"
  "tokenizer_early (t\<lparr> customRe := r \<rparr>) = tokenizer_early t"
  by (simp_all add: tokenizer_early_def)

lemma addCharToBuffer_early [simp]: "tokenizer_early (addCharToBuffer t) = tokenizer_early t"
  by (simp add: addCharToBuffer_def split: option.splits)

lemma tokenize_step_early:
  assumes "tokenizer_early t" and "tokenize_step path t = Inr t'"
  shows "tokenizer_early t'"
proof -
  let ?t1 = "t\<lparr> char := Some (path ! index t), index := index t + 1 \<rparr>"
  have e1: "tokenizer_early ?t1" using assms(1) by simp
  show ?thesis
  proof (cases "path ! index t = CHR 0x5C \<and> state t \<noteq> ParamRegExp")
    case True
    with assms show ?thesis by (auto simp: tokenize_step_def Let_def)
  next
    case False
    show ?thesis
    proof (cases "state t")
      case Static
      with assms False e1 show ?thesis
        by (auto simp: tokenize_step_def Let_def split: if_splits sum.splits
            dest: consumeBuffer_early' intro!: finalizeSegment_early)
    next
      case Param
      with assms False e1 show ?thesis
        by (auto simp: tokenize_step_def Let_def split: if_splits sum.splits
            dest: consumeBuffer_early')
    next
      case ParamRegExp
      with assms False e1 show ?thesis
        by (auto simp: tokenize_step_def Let_def split: if_splits sum.splits)
    next
      case ParamRegExpEnd
      with assms False e1 show ?thesis
        by (auto simp: tokenize_step_def Let_def split: if_splits sum.splits
            dest: consumeBuffer_early')
    next
      case EscapeNext
      with assms False e1 show ?thesis
        by (auto simp: tokenize_step_def Let_def split: if_splits sum.splits)
    qed
  qed
qed

lemma tokenize_loop_early:
  "tokenizer_early t \<Longrightarrow> tokenize_loop path t = Inr t' \<Longrightarrow> tokenizer_early t'"
proof (induction path t rule: tokenize_loop.induct)
  case (1 path t)
  show ?case
  proof (cases "index t < length path")
    case False
    with 1 show ?thesis by (simp add: tokenize_loop.simps)
  next
    case True
    with "1.prems"(2) obtain t1 where s: "tokenize_step path t = Inr t1"
      and l: "tokenize_loop path t1 = Inr t'"
      by (subst (asm) tokenize_loop.simps) (auto split: sum.splits)
    from tokenize_step_early [OF "1.prems"(1) s] have "tokenizer_early t1" .
    with "1.IH" [OF True s] l show ?thesis by simp
  qed
qed

text \<open>
  Counterexample to claim C9 as stated. \<^verbatim>\<open>/:a?-b\<close> has an optional parameter that shares
  its segment with a static token, and it tokenizes without an error.
\<close>

theorem tokenizePath_counterexample:
  "tokenizePath ''/:a?-b'' = Inr [[TokenParam ''a'' [] True False, TokenStatic ''-b'']]"
  by code_simp

text \<open>
  Claim C9, as amended. The tokenizer fails with the error of a repeatable parameter that
  is not alone when a parameter with the modifier \<^verbatim>\<open>*\<close> or \<^verbatim>\<open>+\<close> is completed in a
  segment that already holds two or more tokens. Hence in every successful tokenization
  no repeatable parameter has two or more tokens before it in its segment. A parameter
  that is only optional is never refused for sharing its segment.
\<close>

theorem tokenizePath_repeatable:
  "(buffer t \<noteq> [] \<and> (state t = Param \<or> state t = ParamRegExp \<or> state t = ParamRegExpEnd)
      \<and> segment t = Some seg \<and> length seg > 1
      \<and> (char t = Some CHR ''*'' \<or> char t = Some CHR ''+'')
      \<longrightarrow> consumeBuffer t = Inl (RepeatableNotAlone (state t) (buffer t)))
   \<and> (char t = Some CHR ''?'' \<longrightarrow> consumeBuffer t \<noteq> Inl (RepeatableNotAlone (state t) (buffer t)))
   \<and> (tokenizePath path = Inr segs \<longrightarrow> list_all repeatable_early segs)"
proof (intro conjI impI)
  assume "buffer t \<noteq> [] \<and> (state t = Param \<or> state t = ParamRegExp \<or> state t = ParamRegExpEnd)
      \<and> segment t = Some seg \<and> length seg > 1
      \<and> (char t = Some CHR ''*'' \<or> char t = Some CHR ''+'')"
  then show "consumeBuffer t = Inl (RepeatableNotAlone (state t) (buffer t))"
    by (auto simp: consumeBuffer_def)
next
  assume "char t = Some CHR ''?''"
  then show "consumeBuffer t \<noteq> Inl (RepeatableNotAlone (state t) (buffer t))"
    by (auto simp: consumeBuffer_def split: option.splits)
next
  assume ok: "tokenizePath path = Inr segs"
  let ?t0 = "\<lparr> state = Static, previousState = Static, tokens = [], segment = None,
               index = 0, char = None, buffer = [], customRe = [] \<rparr>"
  have e0: "tokenizer_early ?t0" by (simp add: tokenizer_early_def)
  show "list_all repeatable_early segs"
  proof (cases "path = [] \<or> path = ''/''")
    case True
    with ok show ?thesis
      by (auto simp: tokenizePath_def repeatable_early_def ROOT_TOKEN_def)
  next
    case False
    with ok obtain t1 t2 where l: "tokenize_loop path ?t0 = Inr t1"
      and c: "consumeBuffer t1 = Inr t2" and r: "segs = tokens (finalizeSegment t2)"
      by (auto simp: tokenizePath_def split: if_splits sum.splits)
    have "tokenizer_early (finalizeSegment t2)"
      using tokenize_loop_early [OF e0 l] c consumeBuffer_early finalizeSegment_early by blast
    then show ?thesis using r by (simp add: tokenizer_early_def)
  qed
qed

theorem tokenizePath_repeatable_witness:
  "tokenizePath ''/a-:b-:c+'' = Inl (RepeatableNotAlone Param ''c'')
   \<and> tokenizePath ''/:ids+'' = Inr [[TokenParam ''ids'' [] False True]]
   \<and> list_all repeatable_early [[TokenParam ''ids'' [] False True]]"
proof -
  have 1: "tokenizePath ''/a-:b-:c+'' = Inl (RepeatableNotAlone Param ''c'')" by code_simp
  have 2: "tokenizePath ''/:ids+'' = Inr [[TokenParam ''ids'' [] False True]]" by code_simp
  show ?thesis
    using 1 2 tokenizePath_repeatable [where path = "''/:ids+''"
        and segs = "[[TokenParam ''ids'' [] False True]]"]
    by simp
qed

lemma handleRedirectRecord_none:
  "\<not> declares_redirect l \<Longrightarrow> loc_matched l' = loc_matched l \<Longrightarrow>
   handleRedirectRecord cfg r l' = Inr None"
  by (auto simp: handleRedirectRecord_def declares_redirect_def split: if_splits)

lemma isSameRouteLocation_cong:
  "loc_matched a' = loc_matched a \<Longrightarrow> loc_params a' = loc_params a \<Longrightarrow>
   loc_query a' = loc_query a \<Longrightarrow> loc_hash a' = loc_hash a \<Longrightarrow>
   isSameRouteLocation sq a' b = isSameRouteLocation sq a b"
  "loc_matched b' = loc_matched b \<Longrightarrow> loc_params b' = loc_params b \<Longrightarrow>
   loc_query b' = loc_query b \<Longrightarrow> loc_hash b' = loc_hash b \<Longrightarrow>
   isSameRouteLocation sq a b' = isSameRouteLocation sq a b"
  by (simp_all add: isSameRouteLocation_def)

lemma forced_raw_options: "forced to \<longleftrightarrow> fst (snd (raw_options to)) = Some True"
  by (simp add: forced_def raw_options_def split: RouteLocationRaw.splits)

text \<open>
  Claim C6. When the target is not forced, declares no redirect and is route-equal to the
  current location, the promise of \<^verbatim>\<open>pushWithRedirect\<close> (and so that of \<^verbatim>\<open>push\<close> and
  \<^verbatim>\<open>replace\<close>) resolves with a NavigationDuplicated failure: nothing is thrown or
  rejected, the current route and the history are untouched, \<^verbatim>\<open>handleScroll\<close> is called
  with the current location, and the after-guards receive the failure.
\<close>

theorem duplicated_navigation:
  assumes "resolved_target cfg to rf r = Some toLocation"
    and "\<not> declares_redirect toLocation"
    and "\<not> forced to"
    and "isSameRouteLocation (stringifyQuery cfg) (currentRoute r) toLocation"
  shows "pushWithRedirect cfg to rf r =
     Some (Resolved (Some (NavigationFailure duplicated (currentRoute r) toLocation)),
           r\<lparr> nextId := nextId r + 1,
              pendingLocation := toLocation,
              events := events r
                @ HandleScroll (currentRoute r) (currentRoute r) True False
                    (isBrowser cfg \<and> has_scrollBehavior cfg)
                # map (\<lambda>g. AfterEach g toLocation (currentRoute r)
                             (Some (NavigationFailure duplicated (currentRoute r) toLocation)))
                      (afterGuards r) \<rparr>)"
proof -
  from assms(1) obtain l where l: "resolve_location cfg to (currentRoute r) = Inr l"
    and t: "toLocation = l\<lparr> loc_id := nextId r, loc_count := 0, redirectedFrom := rf \<rparr>"
    by (auto simp: resolved_target_def split: sum.splits)
  let ?target = "l\<lparr> loc_id := nextId r, loc_count := 0, redirectedFrom := None \<rparr>"
  have res: "resolve cfg to r = (Inr ?target, r\<lparr> nextId := nextId r + 1 \<rparr>)"
    by (simp add: resolve_def l)
  have red: "handleRedirectRecord cfg r' ?target = Inr None" for r'
    using assms(2) by (intro handleRedirectRecord_none [of toLocation]) (simp_all add: t)
  have same: "isSameRouteLocation (stringifyQuery cfg) (currentRoute r) ?target"
    using assms(4)
      isSameRouteLocation_cong(2) [of ?target toLocation "stringifyQuery cfg" "currentRoute r"]
    by (simp add: t)
  have nf: "fst (snd (raw_options to)) \<noteq> Some True"
    using assms(3) by (simp add: forced_raw_options)
  obtain data force rep where ro: "raw_options to = (data, force, rep)"
    by (cases "raw_options to") auto
  with nf have force: "force \<noteq> Some True" by simp
  have tl: "?target\<lparr> redirectedFrom := rf \<rparr> = toLocation" by (simp add: t)
  show ?thesis
    by (subst pushWithRedirect.simps)
      (simp add: res red same ro force tl Let_def handleScroll_def triggerAfterEach_def)
qed

lemma redirect_loop_never_returns:
  assumes "pushWithRedirect cfg to rf r = Some y"
  shows "cfg \<noteq> redirect_loop_config"
  apply (rule pushWithRedirect.raw_induct
      [where P = "\<lambda>cfg to rf r y. cfg \<noteq> redirect_loop_config", OF _ assms])
  apply (rule notI)
  subgoal premises prems for f cfg to rf r y
  proof -
    note c = prems(3)
    define l where "l = (if raw_path_of to = ''/a'' then location_at ''/a'' record_a_to_b
                         else location_at ''/b'' record_b_to_a)
                        \<lparr> loc_id := nextId r, loc_count := 0, redirectedFrom := None \<rparr>"
    have res: "resolve cfg to r = (Inr l, r\<lparr> nextId := nextId r + 1 \<rparr>)"
      by (simp add: c resolve_def redirect_loop_config_def l_def)
    have m: "loc_matched l = [record_a_to_b] \<or> loc_matched l = [record_b_to_a]"
      by (simp add: l_def location_at_def)
    have "\<exists>sr. \<forall>r'. handleRedirectRecord cfg r' l = Inr (Some sr)"
      using m
      by (auto simp: c handleRedirectRecord_def redirect_loop_config_def record_a_to_b_def
          record_b_to_a_def string_includes_def Let_def)
    then obtain sr where h: "\<And>r'. handleRedirectRecord cfg r' l = Inr (Some sr)" by blast
    from prems(2) obtain to' rf' r' where "f cfg to' rf' r' = Some y"
      by (simp add: res h Let_def split: prod.splits)
    from prems(1) [OF this] c show False by simp
  qed
  done

text \<open>
  Counterexample to claim C4 as stated. With the records \<^verbatim>\<open>/a\<close> redirecting to \<^verbatim>\<open>/b\<close>
  and \<^verbatim>\<open>/b\<close> redirecting to \<^verbatim>\<open>/a\<close>, \<^verbatim>\<open>push('/a')\<close> follows the redirects for ever: it
  never returns a promise, so nothing is rejected after 30 redirects.
\<close>

theorem redirect_loop_counterexample:
  "push redirect_loop_config (RawString ''/a'') createRouter = None"
proof (cases "push redirect_loop_config (RawString ''/a'') createRouter")
  case None
  then show ?thesis .
next
  case (Some y)
  then show ?thesis
    using redirect_loop_never_returns [of redirect_loop_config "RawString ''/a''" None
        createRouter y]
    by (simp add: push_def)
qed

lemma checkCanceledNavigation_same:
  "loc_id (pendingLocation r) = loc_id to \<Longrightarrow> checkCanceledNavigation r to from = None"
  by (simp add: checkCanceledNavigation_def)

lemma runGuardQueue_first:
  assumes "loc_id (pendingLocation r) = loc_id to"
  shows "runGuardQueue cfg r to from gs = first_rejection cfg to from gs"
proof (induction gs)
  case Nil
  show ?case using assms by (simp add: checkCanceledNavigation_same)
next
  case (Cons g gs)
  show ?case
    by (cases "guardToPromiseFn cfg g to from") (simp_all add: Cons.IH)
qed

lemma first_rejection_append:
  "first_rejection cfg to from (xs @ ys) =
     (case first_rejection cfg to from xs of
        Some e \<Rightarrow> Some e
      | None \<Rightarrow> first_rejection cfg to from ys)"
proof (induction xs)
  case Nil
  show ?case by simp
next
  case (Cons x xs)
  show ?case
    by (cases "guardToPromiseFn cfg x to from") (simp_all add: Cons.IH)
qed

lemma run_phases_first:
  assumes "loc_id (pendingLocation r) = loc_id to"
  shows "run_phases cfg r to from phases = first_rejection cfg to from (concat phases)"
proof (induction phases)
  case Nil
  show ?case by simp
next
  case (Cons p ps)
  show ?case
    by (cases "first_rejection cfg to from p")
      (simp_all add: runGuardQueue_first [OF assms] first_rejection_append Cons.IH)
qed

lemma first_rejection_advances:
  "list_all (\<lambda>g. advances (guard_return cfg g to from)) pre \<Longrightarrow>
   first_rejection cfg to from pre = None"
  by (induction pre) (auto simp: guardToPromiseFn_def advances_def)

lemma first_rejection_split:
  "list_all (\<lambda>g. advances (guard_return cfg g to from)) pre \<Longrightarrow>
   first_rejection cfg to from (pre @ guard # post) =
     (case guardToPromiseFn cfg guard to from of
        Some e \<Rightarrow> Some e
      | None \<Rightarrow> first_rejection cfg to from post)"
  by (simp add: first_rejection_append first_rejection_advances)

lemma navigate_phases_cong:
  "beforeGuards r' = beforeGuards r \<Longrightarrow> beforeResolveGuards r' = beforeResolveGuards r \<Longrightarrow>
   navigate_phases cfg r' to from = navigate_phases cfg r to from"
  by (simp add: navigate_phases_def)

lemma navigate_first:
  assumes "loc_id (pendingLocation r') = loc_id to"
    and "beforeGuards r' = beforeGuards r" and "beforeResolveGuards r' = beforeResolveGuards r"
  shows "navigate cfg r' to from =
     (case first_rejection cfg to from (concat (navigate_phases cfg r to from)) of
        None \<Rightarrow> Resolved None
      | Some err \<Rightarrow>
          if isNavigationFailure err [NAVIGATION_CANCELLED] then Resolved (Some err)
          else Rejected err)"
  using assms navigate_phases_cong [of r' r cfg to "from"]
  by (simp add: navigate_def run_phases_first)

lemma markAsReady_fields:
  "currentRoute (markAsReady err r) = currentRoute r"
  "queue (routerHistory (markAsReady err r)) = queue (routerHistory r)"
  "position (routerHistory (markAsReady err r)) = position (routerHistory r)"
  "afterGuards (markAsReady err r) = afterGuards r"
  "events (markAsReady err r) =
     events r @ (if ready r then [] else map (\<lambda>h. ReadySettled h err) (readyHandlers r))"
  by (simp_all add: markAsReady_def setupListeners_def listen_def Let_def)

text \<open>
  Claim C5. When the first guard that does not advance, in whatever phase, returns
  \<^verbatim>\<open>false\<close>, the promise resolves with a NavigationAborted failure, the current route and
  the entries of the history are those from before the navigation, and every after-guard
  is called with the target, the location left and that failure.
\<close>

theorem guard_false_aborts:
  assumes "resolved_target cfg to rf r = Some toLocation"
    and "\<not> declares_redirect toLocation"
    and "forced to \<or> \<not> isSameRouteLocation (stringifyQuery cfg) (currentRoute r) toLocation"
    and "concat (navigate_phases cfg r toLocation (currentRoute r)) = pre @ guard # post"
    and "list_all (\<lambda>g. advances (guard_return cfg g toLocation (currentRoute r))) pre"
    and "guard_return cfg guard toLocation (currentRoute r) = GuardFalse"
  shows "\<exists>r'. pushWithRedirect cfg to rf r
            = Some (Resolved (Some (NavigationFailure aborted (currentRoute r) toLocation)), r')
          \<and> currentRoute r' = currentRoute r
          \<and> queue (routerHistory r') = queue (routerHistory r)
          \<and> position (routerHistory r') = position (routerHistory r)
          \<and> events r' = events r
               @ (if ready r then []
                  else map (\<lambda>h. ReadySettled h
                              (Some (NavigationFailure aborted (currentRoute r) toLocation)))
                         (readyHandlers r))
               @ map (\<lambda>g. AfterEach g toLocation (currentRoute r)
                            (Some (NavigationFailure aborted (currentRoute r) toLocation)))
                     (afterGuards r)"
proof -
  let ?from = "currentRoute r"
  let ?failure = "NavigationFailure aborted ?from toLocation"
  from assms(1) obtain l where l: "resolve_location cfg to ?from = Inr l"
    and t: "toLocation = l\<lparr> loc_id := nextId r, loc_count := 0, redirectedFrom := rf \<rparr>"
    by (auto simp: resolved_target_def split: sum.splits)
  let ?target = "l\<lparr> loc_id := nextId r, loc_count := 0, redirectedFrom := None \<rparr>"
  let ?r2 = "r\<lparr> nextId := nextId r + 1, pendingLocation := ?target,
               pendingLocation := toLocation \<rparr>"
  have res: "resolve cfg to r = (Inr ?target, r\<lparr> nextId := nextId r + 1 \<rparr>)"
    by (simp add: resolve_def l)
  have red: "handleRedirectRecord cfg r' ?target = Inr None" for r'
    using assms(2) by (intro handleRedirectRecord_none [of toLocation]) (simp_all add: t)
  obtain data force rep where ro: "raw_options to = (data, force, rep)"
    by (cases "raw_options to") auto
  have same_eq: "isSameRouteLocation (stringifyQuery cfg) ?from ?target
                 = isSameRouteLocation (stringifyQuery cfg) ?from toLocation"
    using isSameRouteLocation_cong(2) [of ?target toLocation "stringifyQuery cfg" ?from]
    by (simp add: t)
  have force_eq: "forced to = (force = Some True)"
    using ro by (simp add: forced_raw_options)
  have tl: "?target\<lparr> redirectedFrom := rf \<rparr> = toLocation" by (simp add: t)
  have fr: "first_rejection cfg toLocation ?from
              (concat (navigate_phases cfg r toLocation ?from)) = Some ?failure"
    using assms(4,5,6) by (simp add: first_rejection_split guardToPromiseFn_def)
  have nav: "navigate cfg r' toLocation ?from = Rejected ?failure"
    if "loc_id (pendingLocation r') = loc_id toLocation" "beforeGuards r' = beforeGuards r"
      "beforeResolveGuards r' = beforeResolveGuards r" for r'
    using that by (subst navigate_first [where r = r]) (simp_all add: fr isNavigationFailure_def)
  let ?r' = "triggerAfterEach toLocation ?from (Some ?failure)
               (markAsReady (Some ?failure)
                  (r\<lparr> nextId := Suc (nextId r), pendingLocation := toLocation \<rparr>))"
  have "pushWithRedirect cfg to rf r = Some (Resolved (Some ?failure), ?r')"
  proof (cases "force = Some True")
    case True
    show ?thesis
      by (subst pushWithRedirect.simps)
        (simp add: res red ro tl True nav Let_def isNavigationFailure_def)
  next
    case False
    then have ns: "isSameRouteLocation (stringifyQuery cfg) ?from ?target = False"
      using assms(3) force_eq same_eq by simp
    show ?thesis
      by (subst pushWithRedirect.simps)
        (simp add: res red ro tl ns nav Let_def isNavigationFailure_def)
  qed
  moreover have "currentRoute ?r' = ?from"
    "queue (routerHistory ?r') = queue (routerHistory r)"
    "position (routerHistory ?r') = position (routerHistory r)"
    by (simp_all add: triggerAfterEach_def markAsReady_fields)
  moreover have "events ?r' = events r
               @ (if ready r then [] else map (\<lambda>h. ReadySettled h (Some ?failure)) (readyHandlers r))
               @ map (\<lambda>g. AfterEach g toLocation ?from (Some ?failure)) (afterGuards r)"
    by (simp add: triggerAfterEach_def markAsReady_fields)
  ultimately show ?thesis by blast
qed

lemma guard_redirect_unfold:
  assumes "resolved_target cfg to rf r = Some toLocation"
    and "\<not> declares_redirect toLocation"
    and "forced to \<or> \<not> isSameRouteLocation (stringifyQuery cfg) (currentRoute r) toLocation"
    and "concat (navigate_phases cfg r toLocation (currentRoute r)) = pre @ guard # post"
    and "list_all (\<lambda>g. advances (guard_return cfg g toLocation (currentRoute r))) pre"
    and "guard_return cfg guard toLocation (currentRoute r) = GuardLocation back"
  shows "pushWithRedirect cfg to rf r =
     (let r1 = r\<lparr> nextId := Suc (nextId r), pendingLocation := toLocation \<rparr>
      in case (if DEV cfg
               then (case resolve cfg back r1 of
                       (Inl err, r') \<Rightarrow> (Inl err, r')
                     | (Inr resolved, r') \<Rightarrow>
                         (Inr (isSameRouteLocation (stringifyQuery cfg) resolved toLocation), r'))
               else (Inr False, r1)) of
           (Inl err, r2) \<Rightarrow> Some (Rejected err, r2)
         | (Inr same, r2) \<Rightarrow>
             (let counted =
                    (if DEV cfg \<and> same
                     then map_option (\<lambda>x. x\<lparr> loc_count := loc_count x + 1 \<rparr>) rf
                     else rf)
              in if DEV cfg \<and> same
                    \<and> (case counted of None \<Rightarrow> False | Some x \<Rightarrow> loc_count x > 30)
                 then Some (Rejected (Error ''Infinite redirect in navigation guard''), r2)
                 else Option.bind
                        (pushWithRedirect cfg (guard_redirect_target cfg r2 to back)
                           (or_else counted (Some (RouteLocationBase.truncate toLocation))) r2)
                        (\<lambda>(p, r'). Some (in_then p, r'))))"
proof -
  let ?from = "currentRoute r"
  let ?failure = "NavigationRedirectError toLocation back"
  from assms(1) obtain l where l: "resolve_location cfg to ?from = Inr l"
    and t: "toLocation = l\<lparr> loc_id := nextId r, loc_count := 0, redirectedFrom := rf \<rparr>"
    by (auto simp: resolved_target_def split: sum.splits)
  let ?target = "l\<lparr> loc_id := nextId r, loc_count := 0, redirectedFrom := None \<rparr>"
  have res: "resolve cfg to r = (Inr ?target, r\<lparr> nextId := nextId r + 1 \<rparr>)"
    by (simp add: resolve_def l)
  have red: "handleRedirectRecord cfg r' ?target = Inr None" for r'
    using assms(2) by (intro handleRedirectRecord_none [of toLocation]) (simp_all add: t)
  obtain data force rep where ro: "raw_options to = (data, force, rep)"
    by (cases "raw_options to") auto
  have same_eq: "isSameRouteLocation (stringifyQuery cfg) ?from ?target
                 = isSameRouteLocation (stringifyQuery cfg) ?from toLocation"
    using isSameRouteLocation_cong(2) [of ?target toLocation "stringifyQuery cfg" ?from]
    by (simp add: t)
  have force_eq: "forced to = (force = Some True)"
    using ro by (simp add: forced_raw_options)
  have tl: "?target\<lparr> redirectedFrom := rf \<rparr> = toLocation" by (simp add: t)
  have fr: "first_rejection cfg toLocation ?from
              (concat (navigate_phases cfg r toLocation ?from)) = Some ?failure"
    using assms(4,5,6) by (simp add: first_rejection_split guardToPromiseFn_def)
  have nav: "navigate cfg r' toLocation ?from = Rejected ?failure"
    if "loc_id (pendingLocation r') = loc_id toLocation" "beforeGuards r' = beforeGuards r"
      "beforeResolveGuards r' = beforeResolveGuards r" for r'
    using that by (subst navigate_first [where r = r]) (simp_all add: fr isNavigationFailure_def)
  show ?thesis
  proof (cases "force = Some True")
    case True
    show ?thesis
      by (subst pushWithRedirect.simps)
        (simp add: res red ro tl True nav Let_def isNavigationFailure_def
          cong: if_cong prod.case_cong)
  next
    case False
    then have ns: "isSameRouteLocation (stringifyQuery cfg) ?from ?target = False"
      using assms(3) force_eq same_eq by simp
    show ?thesis
      by (subst pushWithRedirect.simps)
        (simp add: res red ro tl ns nav Let_def isNavigationFailure_def
          cong: if_cong prod.case_cong)
  qed
qed

text \<open>
  Claim C4, as amended. The counter belongs to the redirects that navigation guards ask
  for, in a development build. When the first guard that does not advance returns a
  location, and that location resolves to one that is route-equal to the location being
  navigated to, the counter of the \<open>redirectedFrom\<close> location of the chain is incremented;
  when it was already 30 or more the promise is rejected with the infinite-redirect
  error and the router is left as it was but for the two location objects created: the
  current route, the history and the events (no after-guard, no error handler) are
  unchanged. Otherwise, and always in a production build, the redirect is followed.
\<close>

theorem guard_redirect_counter:
  assumes "resolved_target cfg to rf r = Some toLocation"
    and "\<not> declares_redirect toLocation"
    and "forced to \<or> \<not> isSameRouteLocation (stringifyQuery cfg) (currentRoute r) toLocation"
    and "concat (navigate_phases cfg r toLocation (currentRoute r)) = pre @ guard # post"
    and "list_all (\<lambda>g. advances (guard_return cfg g toLocation (currentRoute r))) pre"
    and "guard_return cfg guard toLocation (currentRoute r) = GuardLocation back"
  shows "(DEV cfg \<and> resolve_location cfg back (currentRoute r) = Inr l'
          \<and> isSameRouteLocation (stringifyQuery cfg) l' toLocation
          \<and> rf = Some x \<and> 30 \<le> loc_count x
          \<longrightarrow> pushWithRedirect cfg to rf r
                = Some (Rejected (Error ''Infinite redirect in navigation guard''),
                        r\<lparr> nextId := nextId r + 2, pendingLocation := toLocation \<rparr>))
       \<and> (DEV cfg \<and> resolve_location cfg back (currentRoute r) = Inr l'
            \<and> isSameRouteLocation (stringifyQuery cfg) l' toLocation
            \<and> rf = Some x \<and> loc_count x < 30
          \<longrightarrow> pushWithRedirect cfg to rf r
                = Option.bind
                    (pushWithRedirect cfg
                       (guard_redirect_target cfg
                          (r\<lparr> nextId := nextId r + 2, pendingLocation := toLocation \<rparr>) to back)
                       (Some (x\<lparr> loc_count := loc_count x + 1 \<rparr>))
                       (r\<lparr> nextId := nextId r + 2, pendingLocation := toLocation \<rparr>))
                    (\<lambda>(p, r'). Some (in_then p, r')))
       \<and> (DEV cfg \<and> resolve_location cfg back (currentRoute r) = Inr l'
            \<and> (\<not> isSameRouteLocation (stringifyQuery cfg) l' toLocation \<or> rf = None)
          \<longrightarrow> pushWithRedirect cfg to rf r
                = Option.bind
                    (pushWithRedirect cfg
                       (guard_redirect_target cfg
                          (r\<lparr> nextId := nextId r + 2, pendingLocation := toLocation \<rparr>) to back)
                       (or_else rf (Some (RouteLocationBase.truncate toLocation)))
                       (r\<lparr> nextId := nextId r + 2, pendingLocation := toLocation \<rparr>))
                    (\<lambda>(p, r'). Some (in_then p, r')))
       \<and> (\<not> DEV cfg
          \<longrightarrow> pushWithRedirect cfg to rf r
                = Option.bind
                    (pushWithRedirect cfg
                       (guard_redirect_target cfg
                          (r\<lparr> nextId := nextId r + 1, pendingLocation := toLocation \<rparr>) to back)
                       (or_else rf (Some (RouteLocationBase.truncate toLocation)))
                       (r\<lparr> nextId := nextId r + 1, pendingLocation := toLocation \<rparr>))
                    (\<lambda>(p, r'). Some (in_then p, r')))"
proof -
  note u = guard_redirect_unfold [OF assms]
  have same_eq: "isSameRouteLocation (stringifyQuery cfg)
                   (l\<lparr> loc_id := n, loc_count := 0, redirectedFrom := None \<rparr>) toLocation
                 = isSameRouteLocation (stringifyQuery cfg) l toLocation" for l :: RouteLocation and n
    by (rule isSameRouteLocation_cong(1)) simp_all
  have res: "resolve cfg back (r\<lparr> nextId := Suc (nextId r), pendingLocation := toLocation \<rparr>)
             = (Inr (l'\<lparr> loc_id := Suc (nextId r), loc_count := 0, redirectedFrom := None \<rparr>),
                r\<lparr> nextId := Suc (Suc (nextId r)), pendingLocation := toLocation \<rparr>)"
    if "resolve_location cfg back (currentRoute r) = Inr l'"
    using that by (simp add: resolve_def)
  show ?thesis
  proof (intro conjI impI)
    assume a: "DEV cfg \<and> resolve_location cfg back (currentRoute r) = Inr l'
          \<and> isSameRouteLocation (stringifyQuery cfg) l' toLocation
          \<and> rf = Some x \<and> 30 \<le> loc_count x"
    then show "pushWithRedirect cfg to rf r
                = Some (Rejected (Error ''Infinite redirect in navigation guard''),
                        r\<lparr> nextId := nextId r + 2, pendingLocation := toLocation \<rparr>)"
      by (subst u) (simp add: res same_eq Let_def)
  next
    assume a: "DEV cfg \<and> resolve_location cfg back (currentRoute r) = Inr l'
            \<and> isSameRouteLocation (stringifyQuery cfg) l' toLocation
            \<and> rf = Some x \<and> loc_count x < 30"
    then show "pushWithRedirect cfg to rf r
                = Option.bind
                    (pushWithRedirect cfg
                       (guard_redirect_target cfg
                          (r\<lparr> nextId := nextId r + 2, pendingLocation := toLocation \<rparr>) to back)
                       (Some (x\<lparr> loc_count := loc_count x + 1 \<rparr>))
                       (r\<lparr> nextId := nextId r + 2, pendingLocation := toLocation \<rparr>))
                    (\<lambda>(p, r'). Some (in_then p, r'))"
      by (subst u) (simp add: res same_eq Let_def or_else_def)
  next
    assume a: "DEV cfg \<and> resolve_location cfg back (currentRoute r) = Inr l'
            \<and> (\<not> isSameRouteLocation (stringifyQuery cfg) l' toLocation \<or> rf = None)"
    then show "pushWithRedirect cfg to rf r
                = Option.bind
                    (pushWithRedirect cfg
                       (guard_redirect_target cfg
                          (r\<lparr> nextId := nextId r + 2, pendingLocation := toLocation \<rparr>) to back)
                       (or_else rf (Some (RouteLocationBase.truncate toLocation)))
                       (r\<lparr> nextId := nextId r + 2, pendingLocation := toLocation \<rparr>))
                    (\<lambda>(p, r'). Some (in_then p, r'))"
      by (subst u) (auto simp add: res same_eq Let_def)
  next
    assume "\<not> DEV cfg"
    then show "pushWithRedirect cfg to rf r
                = Option.bind
                    (pushWithRedirect cfg
                       (guard_redirect_target cfg
                          (r\<lparr> nextId := nextId r + 1, pendingLocation := toLocation \<rparr>) to back)
                       (or_else rf (Some (RouteLocationBase.truncate toLocation)))
                       (r\<lparr> nextId := nextId r + 1, pendingLocation := toLocation \<rparr>))
                    (\<lambda>(p, r'). Some (in_then p, r'))"
      by (subst u) (simp add: Let_def)
  qed
qed

lemma guard7_resolved:
  "resolved_target (guard7_config ret) to rf r = Some (location_a (nextId r) rf)"
  by (simp add: resolved_target_def guard7_config_def location_a_def)

lemma location_a_no_redirect: "\<not> declares_redirect (location_a n rf)"
  by (simp add: declares_redirect_def location_a_def location_at_def record_plain_def)

lemma not_same_from_start:
  "loc_matched a = [] \<Longrightarrow> \<not> isSameRouteLocation sq a b"
  by (simp add: isSameRouteLocation_def)

lemma guard7_phases:
  assumes "loc_matched (currentRoute r) = []" and "beforeGuards r = [7]"
    and "beforeResolveGuards r = []"
  shows "concat (navigate_phases (guard7_config ret) r (location_a n rf) (currentRoute r))
         = [] @ 7 # []"
  using assms
  by (simp add: navigate_phases_def extractChangingRecords_def guard7_config_def
      location_a_def location_at_def record_plain_def has_same_record_def)

lemma guard7_return:
  "guard_return (guard7_config ret) 7 to from = ret"
  by (simp add: guard7_config_def)

theorem guard_false_aborts_witness:
  "\<exists>r'. push (guard7_config GuardFalse) (RawString ''/a'') router_7_9
          = Some (Resolved (Some (NavigationFailure aborted START_LOCATION_NORMALIZED
                                    (location_a 1 None))), r')
        \<and> currentRoute r' = START_LOCATION_NORMALIZED
        \<and> queue (routerHistory r') = [START]
        \<and> events r' = [AfterEach 9 (location_a 1 None) START_LOCATION_NORMALIZED
                          (Some (NavigationFailure aborted START_LOCATION_NORMALIZED
                                   (location_a 1 None)))]"
proof -
  have r: "currentRoute router_7_9 = START_LOCATION_NORMALIZED" "nextId router_7_9 = 1"
    "beforeGuards router_7_9 = [7]" "beforeResolveGuards router_7_9 = []"
    "afterGuards router_7_9 = [9]" "readyHandlers router_7_9 = []"
    "events router_7_9 = []" "queue (routerHistory router_7_9) = [START]"
    "\<not> ready router_7_9"
    by (simp_all add: router_7_9_def createRouter_def createMemoryHistory_def)
  have m: "loc_matched (currentRoute router_7_9) = []"
    by (simp add: r START_LOCATION_NORMALIZED_def)
  have 1: "resolved_target (guard7_config GuardFalse) (RawString ''/a'') None router_7_9
           = Some (location_a 1 None)"
    using guard7_resolved [of GuardFalse "RawString ''/a''" None router_7_9] by (simp add: r)
  have 3: "forced (RawString ''/a'')
           \<or> \<not> isSameRouteLocation (stringifyQuery (guard7_config GuardFalse))
                 (currentRoute router_7_9) (location_a 1 None)"
    by (simp add: isSameRouteLocation_def m)
  have 5: "list_all (\<lambda>g. advances (guard_return (guard7_config GuardFalse) g (location_a 1 None)
                                     (currentRoute router_7_9))) []"
    by simp
  show ?thesis
    using guard_false_aborts [OF 1 location_a_no_redirect 3
        guard7_phases [OF m r(3) r(4)] 5 guard7_return]
    by (auto simp add: push_def r)
qed

theorem duplicated_navigation_witness:
  "push (guard7_config GuardVoid) (RawString ''/a'')
     (router_7_9\<lparr> currentRoute := location_a 0 None \<rparr>)
   = Some (Resolved (Some (NavigationFailure duplicated (location_a 0 None) (location_a 1 None))),
           router_7_9\<lparr> currentRoute := location_a 0 None, nextId := 2,
                       pendingLocation := location_a 1 None,
                       events := [HandleScroll (location_a 0 None) (location_a 0 None) True False
                                    False,
                                  AfterEach 9 (location_a 1 None) (location_a 0 None)
                                    (Some (NavigationFailure duplicated (location_a 0 None)
                                             (location_a 1 None)))] \<rparr>)"
proof -
  let ?r = "router_7_9\<lparr> currentRoute := location_a 0 None \<rparr>"
  have r: "currentRoute ?r = location_a 0 None" "nextId ?r = 1" "afterGuards ?r = [9]"
    "events ?r = []"
    by (simp_all add: router_7_9_def createRouter_def)
  have 1: "resolved_target (guard7_config GuardVoid) (RawString ''/a'') None ?r
           = Some (location_a 1 None)"
    using guard7_resolved [of GuardVoid "RawString ''/a''" None ?r] by (simp add: r)
  have 3: "\<not> forced (RawString ''/a'')" by (simp add: forced_def)
  have 4: "isSameRouteLocation (stringifyQuery (guard7_config GuardVoid)) (currentRoute ?r)
             (location_a 1 None)"
    by (simp add: r isSameRouteLocation_def location_a_def location_at_def
        isSameRouteRecord_def isSameRouteLocationParams_def guard7_config_def)
  show ?thesis
    using duplicated_navigation [OF 1 location_a_no_redirect 3 4]
    by (simp add: push_def r guard7_config_def)
qed

lemma guard_redirect_target_to_a:
  "raw_options to = (None, None, False) \<Longrightarrow>
   guard_redirect_target (guard7_config ret) r to (RawString ''/a'') = redirect_to_a"
  by (simp add: guard_redirect_target_def locationAsObject_def guard7_config_def
      parseURL_path_def redirect_to_a_def or_else_def)

lemma raw_options_to_a:
  "raw_options (RawString s) = (None, None, False)"
  "raw_options redirect_to_a = (None, None, False)"
  by (simp_all add: raw_options_def redirect_to_a_def parseURL_path_def)

lemma same_location_a:
  "isSameRouteLocation (stringifyQuery (guard7_config ret)) (location_at ''/a'' record_plain)
     (location_a n rf)"
  by (simp add: isSameRouteLocation_def location_a_def location_at_def
      isSameRouteRecord_def isSameRouteLocationParams_def guard7_config_def)

text \<open>
  The whole chain of a guard that always redirects to \<^verbatim>\<open>/a\<close>: from a counter \<open>c\<close> the
  promise is rejected after \<open>31 - c\<close> more navigations; the router only gains location
  objects.
\<close>

lemma guard7_redirect_step:
  assumes "loc_matched (currentRoute r) = []"
    and "beforeGuards r = [7]" and "beforeResolveGuards r = []"
    and "raw_options to = (None, None, False)"
  shows "(30 \<le> loc_count x \<longrightarrow>
            pushWithRedirect (guard7_config (GuardLocation (RawString ''/a''))) to (Some x) r
            = Some (Rejected (Error ''Infinite redirect in navigation guard''),
                    r\<lparr> nextId := nextId r + 2,
                       pendingLocation := location_a (nextId r) (Some x) \<rparr>))
         \<and> (loc_count x < 30 \<longrightarrow>
            pushWithRedirect (guard7_config (GuardLocation (RawString ''/a''))) to (Some x) r
            = Option.bind
                (pushWithRedirect (guard7_config (GuardLocation (RawString ''/a'')))
                   redirect_to_a (Some (x\<lparr> loc_count := loc_count x + 1 \<rparr>))
                   (r\<lparr> nextId := nextId r + 2,
                      pendingLocation := location_a (nextId r) (Some x) \<rparr>))
                (\<lambda>(p, r'). Some (in_then p, r')))"
proof -
  let ?cfg = "guard7_config (GuardLocation (RawString ''/a''))"
  let ?to = "location_a (nextId r) (Some x)"
  have 1: "resolved_target ?cfg to (Some x) r = Some ?to" by (rule guard7_resolved)
  have 3: "forced to \<or> \<not> isSameRouteLocation (stringifyQuery ?cfg) (currentRoute r) ?to"
    by (simp add: isSameRouteLocation_def assms(1))
  have 5: "list_all (\<lambda>g. advances (guard_return ?cfg g ?to (currentRoute r))) []" by simp
  have 6: "guard_return ?cfg 7 ?to (currentRoute r) = GuardLocation (RawString ''/a'')"
    by (rule guard7_return)
  have l: "resolve_location ?cfg (RawString ''/a'') (currentRoute r)
           = Inr (location_at ''/a'' record_plain)"
    by (simp add: guard7_config_def)
  have d: "DEV ?cfg" by (simp add: guard7_config_def)
  note u = guard_redirect_unfold [OF 1 location_a_no_redirect 3
      guard7_phases [OF assms(1,2,3)] 5 6]
  have res: "resolve ?cfg (RawString ''/a'')
               (r\<lparr> nextId := Suc (nextId r), pendingLocation := ?to \<rparr>)
             = (Inr (location_at ''/a'' record_plain
                      \<lparr> loc_id := Suc (nextId r), loc_count := 0, redirectedFrom := None \<rparr>),
                r\<lparr> nextId := Suc (Suc (nextId r)), pendingLocation := ?to \<rparr>)"
    using l by (simp add: resolve_def)
  have same: "isSameRouteLocation (stringifyQuery ?cfg)
                (location_at ''/a'' record_plain
                   \<lparr> loc_id := n, loc_count := 0, redirectedFrom := None \<rparr>) ?to" for n
    using isSameRouteLocation_cong(1)
      [of "location_at ''/a'' record_plain\<lparr> loc_id := n, loc_count := 0,
             redirectedFrom := None \<rparr>"
          "location_at ''/a'' record_plain" "stringifyQuery ?cfg" ?to]
      same_location_a [of "GuardLocation (RawString ''/a'')" "nextId r" "Some x"]
    by simp
  have t: "guard_redirect_target ?cfg r' to (RawString ''/a'') = redirect_to_a" for r'
    by (rule guard_redirect_target_to_a [OF assms(4)])
  show ?thesis
  proof (intro conjI impI)
    assume "30 \<le> loc_count x"
    then show "pushWithRedirect ?cfg to (Some x) r
            = Some (Rejected (Error ''Infinite redirect in navigation guard''),
                    r\<lparr> nextId := nextId r + 2, pendingLocation := ?to \<rparr>)"
      by (subst u) (simp add: res same d Let_def)
  next
    assume "loc_count x < 30"
    then show "pushWithRedirect ?cfg to (Some x) r
            = Option.bind
                (pushWithRedirect ?cfg redirect_to_a (Some (x\<lparr> loc_count := loc_count x + 1 \<rparr>))
                   (r\<lparr> nextId := nextId r + 2, pendingLocation := ?to \<rparr>))
                (\<lambda>(p, r'). Some (in_then p, r'))"
      by (subst u) (simp add: res same d t Let_def or_else_def)
  qed
qed

lemma guard7_first_redirect:
  assumes "loc_matched (currentRoute r) = []"
    and "beforeGuards r = [7]" and "beforeResolveGuards r = []"
    and "raw_options to = (None, None, False)"
  shows "pushWithRedirect (guard7_config (GuardLocation (RawString ''/a''))) to None r
         = Option.bind
             (pushWithRedirect (guard7_config (GuardLocation (RawString ''/a'')))
                redirect_to_a
                (Some (RouteLocationBase.truncate (location_a (nextId r) None)))
                (r\<lparr> nextId := nextId r + 2,
                   pendingLocation := location_a (nextId r) None \<rparr>))
             (\<lambda>(p, r'). Some (in_then p, r'))"
proof -
  let ?cfg = "guard7_config (GuardLocation (RawString ''/a''))"
  let ?to = "location_a (nextId r) None"
  have 1: "resolved_target ?cfg to None r = Some ?to" by (rule guard7_resolved)
  have 3: "forced to \<or> \<not> isSameRouteLocation (stringifyQuery ?cfg) (currentRoute r) ?to"
    by (simp add: isSameRouteLocation_def assms(1))
  have 5: "list_all (\<lambda>g. advances (guard_return ?cfg g ?to (currentRoute r))) []" by simp
  have 6: "guard_return ?cfg 7 ?to (currentRoute r) = GuardLocation (RawString ''/a'')"
    by (rule guard7_return)
  have l: "resolve_location ?cfg (RawString ''/a'') (currentRoute r)
           = Inr (location_at ''/a'' record_plain)"
    by (simp add: guard7_config_def)
  have d: "DEV ?cfg" by (simp add: guard7_config_def)
  note u = guard_redirect_unfold [OF 1 location_a_no_redirect 3
      guard7_phases [OF assms(1,2,3)] 5 6]
  have res: "resolve ?cfg (RawString ''/a'')
               (r\<lparr> nextId := Suc (nextId r), pendingLocation := ?to \<rparr>)
             = (Inr (location_at ''/a'' record_plain
                      \<lparr> loc_id := Suc (nextId r), loc_count := 0, redirectedFrom := None \<rparr>),
                r\<lparr> nextId := Suc (Suc (nextId r)), pendingLocation := ?to \<rparr>)"
    using l by (simp add: resolve_def)
  have t: "guard_redirect_target ?cfg r' to (RawString ''/a'') = redirect_to_a" for r'
    by (rule guard_redirect_target_to_a [OF assms(4)])
  show ?thesis
    by (subst u) (simp add: res d t Let_def or_else_def)
qed

lemma guard_redirect_chain_from:
  assumes "loc_count x + k = 30" and "loc_matched (currentRoute r) = []"
    and "beforeGuards r = [7]" and "beforeResolveGuards r = []"
    and "raw_options to = (None, None, False)"
  shows "\<exists>r'. pushWithRedirect (guard7_config (GuardLocation (RawString ''/a''))) to (Some x) r
              = Some (Rejected (Error ''Infinite redirect in navigation guard''), r')
            \<and> currentRoute r' = currentRoute r \<and> routerHistory r' = routerHistory r
            \<and> events r' = events r \<and> nextId r' = nextId r + 2 * (k + 1)"
  using assms
proof (induction k arbitrary: x r to)
  case 0
  then show ?case
    using guard7_redirect_step [of r to x] by simp
next
  case (Suc k)
  let ?cfg = "guard7_config (GuardLocation (RawString ''/a''))"
  let ?r2 = "r\<lparr> nextId := nextId r + 2, pendingLocation := location_a (nextId r) (Some x) \<rparr>"
  let ?x' = "x\<lparr> loc_count := loc_count x + 1 \<rparr>"
  have step: "pushWithRedirect ?cfg to (Some x) r
        = Option.bind (pushWithRedirect ?cfg redirect_to_a (Some ?x') ?r2)
            (\<lambda>(p, r'). Some (in_then p, r'))"
    using guard7_redirect_step [of r to x] Suc.prems by simp
  have "\<exists>r'. pushWithRedirect ?cfg redirect_to_a (Some ?x') ?r2
              = Some (Rejected (Error ''Infinite redirect in navigation guard''), r')
            \<and> currentRoute r' = currentRoute ?r2 \<and> routerHistory r' = routerHistory ?r2
            \<and> events r' = events ?r2 \<and> nextId r' = nextId ?r2 + 2 * (k + 1)"
    using Suc.prems by (intro Suc.IH) (simp_all add: raw_options_to_a)
  then obtain r' where ih: "pushWithRedirect ?cfg redirect_to_a (Some ?x') ?r2
              = Some (Rejected (Error ''Infinite redirect in navigation guard''), r')"
    and f: "currentRoute r' = currentRoute r" "routerHistory r' = routerHistory r"
      "events r' = events r" "nextId r' = nextId r + 2 + 2 * (k + 1)"
    by auto
  show ?case
    using f step ih by simp
qed

text \<open>
  A guard that always redirects to \<^verbatim>\<open>/a\<close>, in a development build: the promise of
  \<^verbatim>\<open>push('/a')\<close> is rejected with the infinite-redirect error after 32 navigations, and
  nothing is committed.
\<close>

lemma guard_redirect_chain:
  "\<exists>r'. push (guard7_config (GuardLocation (RawString ''/a''))) (RawString ''/a'') router_7_9
          = Some (Rejected (Error ''Infinite redirect in navigation guard''), r')
        \<and> currentRoute r' = START_LOCATION_NORMALIZED
        \<and> routerHistory r' = createMemoryHistory \<and> events r' = [] \<and> nextId r' = 65"
proof -
  let ?cfg = "guard7_config (GuardLocation (RawString ''/a''))"
  have r: "currentRoute router_7_9 = START_LOCATION_NORMALIZED" "nextId router_7_9 = 1"
    "beforeGuards router_7_9 = [7]" "beforeResolveGuards router_7_9 = []"
    "events router_7_9 = []" "routerHistory router_7_9 = createMemoryHistory"
    by (simp_all add: router_7_9_def createRouter_def)
  have m: "loc_matched (currentRoute router_7_9) = []"
    by (simp add: r START_LOCATION_NORMALIZED_def)
  let ?to = "location_a 1 None"
  let ?r2 = "router_7_9\<lparr> nextId := 3, pendingLocation := ?to \<rparr>"
  have 1: "resolved_target ?cfg (RawString ''/a'') None router_7_9 = Some ?to"
    using guard7_resolved [of _ "RawString ''/a''" None router_7_9] by (simp add: r)
  have 3: "forced (RawString ''/a'')
           \<or> \<not> isSameRouteLocation (stringifyQuery ?cfg) (currentRoute router_7_9) ?to"
    by (simp add: isSameRouteLocation_def m)
  have 5: "list_all (\<lambda>g. advances (guard_return ?cfg g ?to (currentRoute router_7_9))) []"
    by simp
  have l: "resolve_location ?cfg (RawString ''/a'') (currentRoute router_7_9)
           = Inr (location_at ''/a'' record_plain)"
    by (simp add: guard7_config_def)
  have d: "DEV ?cfg" by (simp add: guard7_config_def)
  have cs: "RouteLocationBase.truncate (location_a 1 None) = chain_start 0"
    by (simp add: chain_start_def RouteLocationBase.truncate_def location_a_def)
  have first: "push ?cfg (RawString ''/a'') router_7_9
        = Option.bind (pushWithRedirect ?cfg redirect_to_a (Some (chain_start 0)) ?r2)
            (\<lambda>(p, r'). Some (in_then p, r'))"
    using guard7_first_redirect [OF m r(3) r(4) raw_options_to_a(1), of "''/a''"] cs
    by (simp add: push_def r eval_nat_numeral)
  have "\<exists>r'. pushWithRedirect ?cfg redirect_to_a (Some (chain_start 0)) ?r2
              = Some (Rejected (Error ''Infinite redirect in navigation guard''), r')
            \<and> currentRoute r' = currentRoute ?r2 \<and> routerHistory r' = routerHistory ?r2
            \<and> events r' = events ?r2 \<and> nextId r' = nextId ?r2 + 2 * (30 + 1)"
    by (rule guard_redirect_chain_from)
      (simp_all add: chain_start_def raw_options_to_a r START_LOCATION_NORMALIZED_def)
  then show ?thesis
    by (auto simp: first r eval_nat_numeral)
qed

theorem guard_redirect_counter_witness:
  "pushWithRedirect (guard7_config (GuardLocation (RawString ''/a''))) (RawString ''/a'')
     (Some (chain_start 30)) router_7_9
   = Some (Rejected (Error ''Infinite redirect in navigation guard''),
           router_7_9\<lparr> nextId := 3, pendingLocation := location_a 1 (Some (chain_start 30)) \<rparr>)
   \<and> pushWithRedirect (guard7_config (GuardLocation (RawString ''/a''))) (RawString ''/a'')
       (Some (chain_start 29)) router_7_9
     = Option.bind
         (pushWithRedirect (guard7_config (GuardLocation (RawString ''/a''))) redirect_to_a
            (Some (chain_start 30))
            (router_7_9\<lparr> nextId := 3,
                         pendingLocation := location_a 1 (Some (chain_start 29)) \<rparr>))
         (\<lambda>(p, r'). Some (in_then p, r'))"
proof -
  let ?cfg = "guard7_config (GuardLocation (RawString ''/a''))"
  have r: "currentRoute router_7_9 = START_LOCATION_NORMALIZED" "nextId router_7_9 = 1"
    "beforeGuards router_7_9 = [7]" "beforeResolveGuards router_7_9 = []"
    by (simp_all add: router_7_9_def createRouter_def)
  have m: "loc_matched (currentRoute router_7_9) = []"
    by (simp add: r START_LOCATION_NORMALIZED_def)
  have l: "resolve_location ?cfg (RawString ''/a'') (currentRoute router_7_9)
           = Inr (location_at ''/a'' record_plain)"
    by (simp add: guard7_config_def)
  have d: "DEV ?cfg" by (simp add: guard7_config_def)
  have c30: "loc_count (chain_start 30) = 30" "loc_count (chain_start 29) = 29"
    "chain_start 29\<lparr> loc_count := 30 \<rparr> = chain_start 30"
    by (simp_all add: chain_start_def)
  have 1: "resolved_target ?cfg (RawString ''/a'') rf router_7_9 = Some (location_a 1 rf)" for rf
    using guard7_resolved [of _ "RawString ''/a''" rf router_7_9] by (simp add: r)
  have 3: "forced (RawString ''/a'')
           \<or> \<not> isSameRouteLocation (stringifyQuery ?cfg) (currentRoute router_7_9)
                 (location_a 1 rf)" for rf
    by (simp add: isSameRouteLocation_def m)
  have 5: "list_all (\<lambda>g. advances (guard_return ?cfg g (location_a 1 rf)
             (currentRoute router_7_9))) []" for rf
    by simp
  show ?thesis
    using guard_redirect_counter [OF 1 [of "Some (chain_start 30)"] location_a_no_redirect 3
        guard7_phases [OF m r(3) r(4)] 5 guard7_return,
        where l' = "location_at ''/a'' record_plain" and x = "chain_start 30"]
      guard_redirect_counter [OF 1 [of "Some (chain_start 29)"] location_a_no_redirect 3
        guard7_phases [OF m r(3) r(4)] 5 guard7_return,
        where l' = "location_at ''/a'' record_plain" and x = "chain_start 29"]
      l d c30 same_location_a guard_redirect_target_to_a [OF raw_options_to_a(1)]
    by (simp add: r eval_nat_numeral)
qed













































end
